theory Spec2Isabelle
  imports Main "HOL-Library.FSet"
begin

section \<open>Python values and helpers used by the hasher\<close>

text \<open>
  The hasher (\<^verbatim>\<open>django_pph/hashers.py\<close>) is Python 2 era code: a \<^verbatim>\<open>str\<close> is a byte
  string, so byte strings and text are both modelled as \<^typ>\<open>string\<close>.
  Exceptions are values of type \<open>error\<close>; a Python exception does not undo the
  mutations made before it, so every stateful operation returns its outcome together
  with the state it leaves behind.
\<close>

type_synonym bytes = string

datatype error =
    LockedException       \<comment> \<open>\<^verbatim>\<open>raise LockedException\<close>\<close>
  | AssertionError        \<comment> \<open>a failed \<^verbatim>\<open>assert\<close>\<close>
  | ValueError            \<comment> \<open>tuple unpacking of a short split, or \<^verbatim>\<open>int()\<close> of a non-number\<close>
  | KeyError              \<comment> \<open>\<^verbatim>\<open>"{s}".format(...)\<close> with positional arguments only\<close>
  | NameError             \<comment> \<open>a method called as a free function\<close>
  | CachedShareMismatch   \<comment> \<open>\<^verbatim>\<open>Exception("Cached share does not match the new  share value!")\<close>\<close>
  | RecombineFailed       \<comment> \<open>\<^verbatim>\<open>Exception("Couldn't recombine store!")\<close>\<close>
  | LibraryError          \<comment> \<open>an exception raised inside an external primitive\<close>

text \<open>The iteration count reaches PBKDF2 as an \<^verbatim>\<open>int\<close> from \<^verbatim>\<open>encode\<close> and from the
  class attribute, and as the undecoded field of the encoded string from \<^verbatim>\<open>verify\<close>.\<close>

datatype iters = IterInt int | IterStr string

datatype level = DEBUG | ERROR

text \<open>Python slices \<^verbatim>\<open>s[i:]\<close> and \<^verbatim>\<open>s[:i]\<close>: a negative index counts from the end and
  every index is clamped to the range of the sequence.\<close>

definition py_from :: "'a list \<Rightarrow> int \<Rightarrow> 'a list" where
  "py_from s i = drop (nat (if i < 0 then int (length s) + i else i)) s"

definition py_upto :: "'a list \<Rightarrow> int \<Rightarrow> 'a list" where
  "py_upto s i = take (nat (if i < 0 then int (length s) + i else i)) s"

text \<open>\<^verbatim>\<open>s.strip('$')\<close>, \<^verbatim>\<open>s.startswith('-')\<close> and \<^verbatim>\<open>s.split('$', 4)\<close>.\<close>

definition strip_char :: "char \<Rightarrow> string \<Rightarrow> string" where
  "strip_char c s = rev (dropWhile (\<lambda>x. x = c) (rev (dropWhile (\<lambda>x. x = c) s)))"

definition startswith_minus :: "string \<Rightarrow> bool" where
  "startswith_minus s = (case s of [] \<Rightarrow> False | x # _ \<Rightarrow> x = CHR ''-'')"

fun split_max :: "char \<Rightarrow> nat \<Rightarrow> string \<Rightarrow> string list" where
  "split_max c 0 s = [s]"
| "split_max c (Suc k) s =
     (if c \<in> set s
      then takeWhile (\<lambda>x. x \<noteq> c) s # split_max c k (tl (dropWhile (\<lambda>x. x \<noteq> c) s))
      else [s])"

text \<open>\<^verbatim>\<open>a, b, c, d, e = encoded.split('$', 4)\<close>: fewer than five parts cannot be
  unpacked (\<^verbatim>\<open>ValueError\<close>); \<^verbatim>\<open>split\<close> with a limit of 4 never gives more.\<close>

definition split_fields :: "string \<Rightarrow> error + (string \<times> string \<times> string \<times> string \<times> string)" where
  "split_fields encoded =
     (case split_max CHR ''$'' 4 encoded of
        [a, b, c, d, e] \<Rightarrow> Inr (a, b, c, d, e)
      | _ \<Rightarrow> Inl ValueError)"

text \<open>Decimal printing (\<^verbatim>\<open>"%d" % n\<close>, \<^verbatim>\<open>"%s" % n\<close>) and parsing (\<^verbatim>\<open>int(s)\<close>) of
  integers. \<^verbatim>\<open>int\<close> accepts surrounding white space and one sign.\<close>

definition digit_char :: "int \<Rightarrow> char" where
  "digit_char d = ''0123456789'' ! nat d"

function str_nat :: "int \<Rightarrow> string" where
  "str_nat n = (if n < 10 then [digit_char n] else str_nat (n div 10) @ [digit_char (n mod 10)])"
  by pat_completeness auto
termination
  by (relation "measure nat") auto

declare str_nat.simps [simp del]

definition str_int :: "int \<Rightarrow> string" where
  "str_int i = (if i < 0 then CHR ''-'' # str_nat (- i) else str_nat i)"

definition is_digit :: "char \<Rightarrow> bool" where
  "is_digit c = (48 \<le> (of_char c :: int) \<and> (of_char c :: int) \<le> 57)"

definition is_space :: "char \<Rightarrow> bool" where
  "is_space c = ((of_char c :: int) = 32 \<or> (9 \<le> (of_char c :: int) \<and> (of_char c :: int) \<le> 13))"

definition digits_val :: "string \<Rightarrow> int" where
  "digits_val ds = foldl (\<lambda>acc c. 10 * acc + ((of_char c :: int) - 48)) 0 ds"

definition py_int :: "string \<Rightarrow> int option" where
  "py_int s0 =
     (let s = rev (dropWhile is_space (rev (dropWhile is_space s0)));
          (neg, ds) = (case s of
                         c # r \<Rightarrow> if c = CHR ''-'' then (True, r)
                                  else if c = CHR ''+'' then (False, r) else (False, s)
                       | [] \<Rightarrow> (False, s))
      in if ds \<noteq> [] \<and> list_all is_digit ds
         then Some (if neg then - digits_val ds else digits_val ds)
         else None)"


section \<open>Collaborators that are not part of \<^verbatim>\<open>hashers.py\<close>\<close>

text \<open>
  The hasher calls functions that live outside the file: \<^verbatim>\<open>hashlib.sha256\<close>,
  Django's \<^verbatim>\<open>pbkdf2\<close> (which receives the hash function as its \<^verbatim>\<open>digest\<close> argument),
  PyCrypto's AES, the standard library's \<^verbatim>\<open>b64decode\<close>, the package's own
  \<^verbatim>\<open>utils\<close> (\<^verbatim>\<open>b64enc\<close>, \<^verbatim>\<open>bin64enc\<close>), its \<^verbatim>\<open>ShamirSecret\<close> class and
  its \<^verbatim>\<open>SETTINGS\<close>. They are parameters of the model, collected in one record; the
  type \<open>'sh\<close> is the type of \<^verbatim>\<open>ShamirSecret\<close> objects. Calls that can raise return
  a sum. \<open>set_iter\<close> is the order in which Python iterates over a set of share
  numbers.
\<close>

record 'sh prims =
  sha256 :: "bytes \<Rightarrow> bytes"
  pbkdf2 :: "(bytes \<Rightarrow> bytes) \<Rightarrow> bytes \<Rightarrow> bytes option \<Rightarrow> iters \<Rightarrow> bytes"
  b64enc :: "bytes \<Rightarrow> string"
  bin64enc :: "bytes \<Rightarrow> string"
  b64decode :: "string \<Rightarrow> error + bytes"
  aes_encrypt :: "bytes \<Rightarrow> bytes \<Rightarrow> error + bytes"
  ShamirSecret :: "int \<Rightarrow> 'sh"
  compute_share :: "'sh \<Rightarrow> int \<Rightarrow> error + (int \<times> bytes)"
  recover_secretdata :: "'sh \<Rightarrow> (int \<times> bytes) list \<Rightarrow> error + 'sh"
  secretdata :: "'sh \<Rightarrow> bytes"
  set_iter :: "int fset \<Rightarrow> int list"
  THRESHOLD :: int
  PARTIALBYTES :: int
  SECRET_LENGTH :: int
  SECRET_VERIFICATION_BYTES :: int

text \<open>
  Modelled from the spec: \<^verbatim>\<open>utils.constant_time_compare\<close> is not under the source
  tree. The specification calls it a constant-time equality for which a length
  mismatch is inequality, so its value is the equality of the two strings.
\<close>

definition constant_time_compare :: "string \<Rightarrow> string \<Rightarrow> bool" where
  "constant_time_compare a b = (a = b)"

text \<open>
  Modelled from the spec: \<^verbatim>\<open>utils.do_bytearray_xor\<close> is not under the source tree.
  The specification uses it as the bytewise XOR of two byte strings. What it does on
  operands of different lengths is not specified; here the longer operand is cut, and
  every statement below that depends on an XOR assumes operands of equal length.
\<close>

definition xor_char :: "char \<Rightarrow> char \<Rightarrow> char" where
  "xor_char a b = char_of (xor (of_char a :: int) (of_char b))"

definition do_bytearray_xor :: "bytes \<Rightarrow> bytes \<Rightarrow> bytes" where
  "do_bytearray_xor a b = map2 xor_char a b"

text \<open>\<^verbatim>\<open>utils.binary_type\<close> converts to the byte-string type; on a byte string it is
  the identity.\<close>

definition binary_type :: "string \<Rightarrow> bytes" where
  "binary_type s = s"

section \<open>The engine state\<close>

text \<open>The dictionary \<^verbatim>\<open>PolyPasswordHasher.data\<close>.\<close>

record 'sh hdata =
  is_unlocked :: bool
  secret :: "bytes option"
  nextavailableshare :: int
  shamirsecretobj :: "'sh option"
  thresholdlesskey :: "bytes option"
  last_unlocked :: nat

text \<open>
  The state of one hasher and of its collaborators. \<^verbatim>\<open>self.data\<close> refers either to
  a dictionary of its own (the class attribute at first, later a copy read from the
  cache) or to the very object \<^verbatim>\<open>self.defaults\<close>, which \<^verbatim>\<open>load\<close> installs when the
  cache has no entry: a write through \<^verbatim>\<open>self.data\<close> then changes the defaults too.
  The cache stores copies of values. Its keys are \<^verbatim>\<open>'hasher'\<close>, the integer share
  numbers, \<^verbatim>\<open>"sharenumbers"\<close> and \<^verbatim>\<open>'partial_hashes'\<close>; the last is a dictionary from
  stored hash to \<^verbatim>\<open>(sharenumber, saltedpasswordhash)\<close>, kept here as an association
  list in insertion order. \<open>logged\<close> collects the messages sent to the logger,
  \<open>users_since t\<close> is the list of password fields of
  \<^verbatim>\<open>User.objects.filter(date_joined__gte=t)\<close> and \<open>now\<close> is the clock read by
  \<^verbatim>\<open>datetime.datetime.utcnow()\<close>.
\<close>

record 'sh engine =
  own_data :: "'sh hdata"
  defaults :: "'sh hdata"
  data_is_defaults :: bool
  c_hasher :: "'sh hdata option"
  c_share :: "int \<rightharpoonup> bytes"
  c_sharenumbers :: "int fset option"
  c_partial_hashes :: "(string \<times> int \<times> string) list option"
  logged :: "(level \<times> string) list"
  users_since :: "nat \<Rightarrow> string list"
  now :: nat

definition data :: "'sh engine \<Rightarrow> 'sh hdata" where
  "data s = (if data_is_defaults s then defaults s else own_data s)"

definition map_data :: "('sh hdata \<Rightarrow> 'sh hdata) \<Rightarrow> 'sh engine \<Rightarrow> 'sh engine" where
  "map_data f s =
     (if data_is_defaults s then s\<lparr>defaults := f (defaults s)\<rparr>
      else s\<lparr>own_data := f (own_data s)\<rparr>)"

definition log_msg :: "level \<Rightarrow> string \<Rightarrow> 'sh engine \<Rightarrow> 'sh engine" where
  "log_msg l m s = s\<lparr>logged := logged s @ [(l, m)]\<rparr>"

text \<open>The class attributes \<^verbatim>\<open>algorithm = 'pph'\<close> and \<^verbatim>\<open>iterations = 12000\<close>; the
  attributes \<^verbatim>\<open>threshold\<close> and \<^verbatim>\<open>partialbytes\<close> are read from the settings.\<close>

definition algorithm :: string where
  "algorithm = ''pph''"

definition iterations :: int where
  "iterations = 12000"

text \<open>The initial value of the class attribute \<^verbatim>\<open>data\<close>, of which \<^verbatim>\<open>defaults\<close> is a
  copy; \<open>t\<close> is the time at which the class body runs. A hasher starts with these
  two dictionaries.\<close>

definition data0 :: "nat \<Rightarrow> 'sh hdata" where
  "data0 t = \<lparr> is_unlocked = False, secret = None, nextavailableshare = 1,
               shamirsecretobj = None, thresholdlesskey = None, last_unlocked = t \<rparr>"

definition fresh_engine :: "(nat \<Rightarrow> string list) \<Rightarrow> nat \<Rightarrow> 'sh engine" where
  "fresh_engine us t =
     \<lparr> own_data = data0 t, defaults = data0 t, data_is_defaults = False, c_hasher = None,
       c_share = Map.empty, c_sharenumbers = None, c_partial_hashes = None, logged = [],
       users_since = us, now = t \<rparr>"

section \<open>The hasher\<close>

definition digest :: "'sh prims \<Rightarrow> bytes \<Rightarrow> bytes option \<Rightarrow> iters \<Rightarrow> bytes" where
  "digest E password salt its = pbkdf2 E (sha256 E) password salt its"

text \<open>\<^verbatim>\<open>update\<close> is only ever called without attributes.\<close>

definition update :: "'sh engine \<Rightarrow> 'sh engine" where
  "update s = s\<lparr>c_hasher := Some (data s)\<rparr>"

definition load :: "'sh engine \<Rightarrow> 'sh engine" where
  "load s =
     (case c_hasher s of
        Some d \<Rightarrow> s\<lparr>own_data := d, data_is_defaults := False\<rparr>
      | None \<Rightarrow> s\<lparr>data_is_defaults := True\<rparr>)"

text \<open>Both \<^verbatim>\<open>encode\<close> and \<^verbatim>\<open>verify\<close> begin with
  \<^verbatim>\<open>if not self.data['is_unlocked']: self.load()\<close>.\<close>

definition reload :: "'sh engine \<Rightarrow> 'sh engine" where
  "reload s = (if \<not> is_unlocked (data s) then load s else s)"

definition polyhash_entry ::
  "'sh prims \<Rightarrow> 'sh engine \<Rightarrow> bytes \<Rightarrow> bytes \<Rightarrow> int \<Rightarrow> error + string" where
  "polyhash_entry E s password salt sharenumber =
     (case shamirsecretobj (data s) of
        None \<Rightarrow> Inl AssertionError
      | Some sh \<Rightarrow>
          (let saltedpasswordhash = digest E password (Some salt) (IterInt iterations)
           in case compute_share E sh sharenumber of
                Inl e \<Rightarrow> Inl e
              | Inr share \<Rightarrow>
                  (let shamirsecretdata = snd share;
                       passhash = do_bytearray_xor saltedpasswordhash shamirsecretdata
                   in Inr (bin64enc E passhash @
                           b64enc E (py_from saltedpasswordhash
                             (int (length saltedpasswordhash) - PARTIALBYTES E))))))"

definition encrypt_entry ::
  "'sh prims \<Rightarrow> 'sh engine \<Rightarrow> bytes \<Rightarrow> bytes \<Rightarrow> error + string" where
  "encrypt_entry E s password salt =
     (case thresholdlesskey (data s) of
        None \<Rightarrow> Inl AssertionError
      | Some key \<Rightarrow>
          (let saltedpasswordhash = digest E password (Some salt) (IterInt iterations)
           in case aes_encrypt E key saltedpasswordhash of
                Inl e \<Rightarrow> Inl e
              | Inr passhash \<Rightarrow>
                  Inr (bin64enc E passhash @
                       b64enc E (py_from saltedpasswordhash
                         (int (length saltedpasswordhash) - PARTIALBYTES E)))))"

definition encode ::
  "'sh prims \<Rightarrow> bytes \<Rightarrow> string \<Rightarrow> int option \<Rightarrow> 'sh engine \<Rightarrow> (error + string) \<times> 'sh engine" where
  "encode E password salt0 iterations0 s0 =
     (let s1 = reload s0;
          (sharenumber, s2, salt) =
            (if CHR ''$'' \<in> set salt0
             then (nextavailableshare (data s1),
                   update (map_data (\<lambda>d. d\<lparr>nextavailableshare := nextavailableshare d + 1\<rparr>) s1),
                   strip_char CHR ''$'' salt0)
             else (0, s1, salt0));
          its = (case iterations0 of None \<Rightarrow> iterations | Some i \<Rightarrow> i)
      in if \<not> is_unlocked (data s2) \<or> thresholdlesskey (data s2) = None
         then (let passhash = b64enc E (digest E password (Some salt) (IterInt its))
               in (Inr (algorithm @ ''$-'' @ str_int sharenumber @ ''$'' @ str_int its @ ''$'' @
                        salt @ ''$'' @ passhash),
                   log_msg DEBUG (''creating locked-account '' @ passhash) s2))
         else (case (if sharenumber = 0 then encrypt_entry E s2 password salt
                     else polyhash_entry E s2 password salt sharenumber) of
                 Inl e \<Rightarrow> (Inl e, s2)
               | Inr passhash \<Rightarrow>
                   (Inr (algorithm @ ''$'' @ str_int sharenumber @ ''$'' @ str_int its @ ''$'' @
                         salt @ ''$'' @ passhash),
                    s2)))"

definition partial_verify ::
  "'sh prims \<Rightarrow> bytes \<Rightarrow> string \<Rightarrow> string \<Rightarrow> iters \<Rightarrow> int \<Rightarrow> 'sh engine \<Rightarrow> bool \<times> 'sh engine" where
  "partial_verify E password salt passhash its sharenumber s =
     (let saltedpasswordhash = b64enc E (digest E password (Some salt) its);
          partial_bytes = py_from saltedpasswordhash
                            (int (length saltedpasswordhash) - PARTIALBYTES E);
          original_partial_bytes = py_from passhash (int (length passhash) - PARTIALBYTES E);
          result = constant_time_compare partial_bytes original_partial_bytes
      in if result
         then (let partial_verificated_hashes =
                     (case c_partial_hashes s of None \<Rightarrow> [] | Some d \<Rightarrow> d);
                   d' = (if passhash \<notin> fst ` set partial_verificated_hashes
                         then partial_verificated_hashes @
                              [(passhash, sharenumber, saltedpasswordhash)]
                         else partial_verificated_hashes)
               in (result, s\<lparr>c_partial_hashes := Some d'\<rparr>))
         else (result, s))"

definition get_share_from_hash ::
  "'sh prims \<Rightarrow> bytes \<Rightarrow> string \<Rightarrow> string \<Rightarrow> iters \<Rightarrow> error + bytes" where
  "get_share_from_hash E password salt passhash0 its =
     (let passhash = binary_type passhash0;
          saltedpasswordhash = digest E password (Some salt) its
      in case b64decode E (py_upto passhash (int (length passhash) - PARTIALBYTES E)) of
           Inl e \<Rightarrow> Inl e
         | Inr byte_passhash \<Rightarrow> Inr (do_bytearray_xor byte_passhash saltedpasswordhash))"

definition verify_secret :: "'sh prims \<Rightarrow> bytes \<Rightarrow> bool" where
  "verify_secret E secret0 =
     (let secret = binary_type secret0;
          secret_length = SECRET_LENGTH E;
          verification_len = SECRET_VERIFICATION_BYTES E;
          random_data = py_upto secret (secret_length - verification_len);
          secret_hash = digest E random_data None (IterInt 1);
          secret_hash_text = py_upto (b64enc E secret_hash) verification_len
      in constant_time_compare (py_from secret (secret_length - verification_len))
           secret_hash_text)"

definition update_hash_thresholdless :: "'sh prims \<Rightarrow> 'sh engine \<Rightarrow> string \<Rightarrow> error + string" where
  "update_hash_thresholdless E s hash =
     (case b64decode E hash of
        Inl e \<Rightarrow> Inl e
      | Inr byte_hash \<Rightarrow>
          (case thresholdlesskey (data s) of
             None \<Rightarrow> Inl LibraryError
           | Some key \<Rightarrow>
               (case aes_encrypt E key byte_hash of
                  Inl e \<Rightarrow> Inl e
                | Inr passhash \<Rightarrow>
                    Inr (bin64enc E passhash @
                         b64enc E (py_from byte_hash (int (length byte_hash) - PARTIALBYTES E))))))"

text \<open>
  The loop of \<^verbatim>\<open>_verify_previous_hashes\<close> over the partially verified hashes. Only
  thresholdless entries are audited; a mismatch is logged and the loop goes on.
\<close>

fun verify_previous_loop ::
  "'sh prims \<Rightarrow> (string \<times> int \<times> string) list \<Rightarrow> 'sh engine \<Rightarrow> (error + unit) \<times> 'sh engine" where
  "verify_previous_loop E [] s = (Inr (), s)"
| "verify_previous_loop E ((original_hash, sharenumber, saltedhash) # rest) s =
     (if sharenumber = 0
      then (case b64decode E saltedhash of
              Inl e \<Rightarrow> (Inl e, s)
            | Inr byte_hash \<Rightarrow>
                (case thresholdlesskey (data s) of
                   None \<Rightarrow> (Inl LibraryError, s)
                 | Some key \<Rightarrow>
                     (case aes_encrypt E key byte_hash of
                        Inl e \<Rightarrow> (Inl e, s)
                      | Inr c \<Rightarrow>
                          (let passhash = bin64enc E c;
                               hashlen = int (length passhash)
                           in verify_previous_loop E rest
                                (if \<not> constant_time_compare passhash (py_upto original_hash hashlen)
                                 then log_msg ERROR
                                        (''original hash mismatches partial verification! Possible break-in detected! The offending hash is '' @
                                         py_upto original_hash hashlen) s
                                 else s)))))
      else verify_previous_loop E rest s)"

definition verify_previous_hashes :: "'sh prims \<Rightarrow> 'sh engine \<Rightarrow> (error + unit) \<times> 'sh engine" where
  "verify_previous_hashes E s =
     (case c_partial_hashes s of
        None \<Rightarrow> (Inr (), s)
      | Some partially_verified_hashes \<Rightarrow> verify_previous_loop E partially_verified_hashes s)"

text \<open>
  The loop of \<^verbatim>\<open>_update_locked_hashes\<close> over the users. For a user whose share field
  starts with \<^verbatim>\<open>-\<close> the body always raises before it reaches \<^verbatim>\<open>user.save()\<close>: with
  share number 0 the call \<^verbatim>\<open>"{s}${d}${s}${s}${s}".format(...)\<close> has no keyword
  argument \<^verbatim>\<open>s\<close>, otherwise \<^verbatim>\<open>update_hash_threshold\<close> is not a global name. No user
  record and no part of the engine state is ever changed by the loop, so it is
  modelled by its outcome alone.
\<close>

fun update_locked_loop :: "'sh prims \<Rightarrow> 'sh engine \<Rightarrow> string list \<Rightarrow> error + unit" where
  "update_locked_loop E s [] = Inr ()"
| "update_locked_loop E s (password # rest) =
     (case split_fields password of
        Inl e \<Rightarrow> Inl e
      | Inr (alg, sharenumber, its, salt, original_hash) \<Rightarrow>
          if startswith_minus sharenumber
          then (case py_int sharenumber of
                  None \<Rightarrow> Inl ValueError
                | Some n \<Rightarrow>
                    if n = 0
                    then (case update_hash_thresholdless E s original_hash of
                            Inl e \<Rightarrow> Inl e
                          | Inr passhash \<Rightarrow> Inl KeyError)
                    else Inl NameError)
          else update_locked_loop E s rest)"

definition update_locked_hashes :: "'sh prims \<Rightarrow> 'sh engine \<Rightarrow> error + unit" where
  "update_locked_hashes E s =
     (let all_users = users_since s (last_unlocked (data s))
      in if \<not> is_unlocked (data s) then Inl AssertionError
         else if thresholdlesskey (data s) = None then Inl AssertionError
         else if secret (data s) = None then Inl AssertionError
         else update_locked_loop E s all_users)"

text \<open>The first loop of \<^verbatim>\<open>_recombine\<close>: the cached share of every seen share number.\<close>

fun recombination_shares :: "'sh engine \<Rightarrow> int list \<Rightarrow> error + (int \<times> bytes) list" where
  "recombination_shares s [] = Inr []"
| "recombination_shares s (share # rest) =
     (case c_share s share of
        None \<Rightarrow> Inl AssertionError
      | Some share_value \<Rightarrow>
          (case recombination_shares s rest of
             Inl e \<Rightarrow> Inl e
           | Inr shares \<Rightarrow> Inr ((share, share_value) # shares)))"

definition recombine :: "'sh prims \<Rightarrow> 'sh engine \<Rightarrow> (error + unit) \<times> 'sh engine" where
  "recombine E s =
     (case c_sharenumbers s of
        None \<Rightarrow> (Inl AssertionError, s)
      | Some sharenumbers \<Rightarrow>
          (case recombination_shares s (set_iter E sharenumbers) of
             Inl e \<Rightarrow> (Inl e, s)
           | Inr shares \<Rightarrow>
               (let obj = ShamirSecret E (THRESHOLD E);
                    s1 = map_data (\<lambda>d. d\<lparr>shamirsecretobj := Some obj\<rparr>) s
                in case recover_secretdata E obj shares of
                     Inl e \<Rightarrow> (Inl e, s1)
                   | Inr obj' \<Rightarrow>
                       (let s2 = map_data (\<lambda>d. d\<lparr>shamirsecretobj := Some obj',
                                                 secret := Some (secretdata E obj')\<rparr>) s1
                        in if \<not> verify_secret E (secretdata E obj')
                           then (Inl RecombineFailed, s2)
                           else (let s3 = map_data (\<lambda>d. d\<lparr>thresholdlesskey := secret d,
                                                              is_unlocked := True\<rparr>) s2
                                 in case verify_previous_hashes E s3 of
                                      (Inl e, s4) \<Rightarrow> (Inl e, s4)
                                    | (Inr u, s4) \<Rightarrow>
                                        (case update_locked_hashes E s4 of
                                           Inl e \<Rightarrow> (Inl e, s4)
                                         | Inr u' \<Rightarrow>
                                             (Inr (),
                                              update (map_data (\<lambda>d. d\<lparr>last_unlocked := now s4\<rparr>) s4))))))))"

text \<open>The unlocked branch of \<^verbatim>\<open>verify\<close> (the body of
  \<^verbatim>\<open>if self.data['secret'] is not None and self.data['thresholdlesskey'] is not None\<close>).\<close>

definition verify_unlocked ::
  "'sh prims \<Rightarrow> bytes \<Rightarrow> string \<Rightarrow> string \<Rightarrow> string \<Rightarrow> int \<Rightarrow> 'sh engine \<Rightarrow> (error + bool) \<times> 'sh engine" where
  "verify_unlocked E password salt original_hash its sharenumber s =
     (case (if sharenumber \<noteq> 0 then polyhash_entry E s password salt sharenumber
            else encrypt_entry E s password salt) of
        Inl e \<Rightarrow> (Inl e, s)
      | Inr proposed_hash \<Rightarrow>
          (let (partial_result, s1) =
                 partial_verify E password salt original_hash (IterStr its) sharenumber s;
               result = constant_time_compare original_hash proposed_hash;
               s2 = (if partial_result \<and> \<not> result
                     then log_msg ERROR
                            (''Failed login with correct partial bytes. Possible database leak detected! The offending Hash is: '' @
                             original_hash) s1
                     else s1)
           in (Inr (constant_time_compare original_hash proposed_hash), s2)))"

text \<open>The share step of the locked branch of \<^verbatim>\<open>verify\<close> (the body of
  \<^verbatim>\<open>if sharenumber != 0\<close>): recover a candidate share, check it against the cache or
  store it, and recombine once enough share numbers have been seen.\<close>

definition cache_share ::
  "'sh prims \<Rightarrow> bytes \<Rightarrow> string \<Rightarrow> string \<Rightarrow> string \<Rightarrow> int \<Rightarrow> 'sh engine \<Rightarrow> (error + unit) \<times> 'sh engine" where
  "cache_share E password salt original_hash its sharenumber s =
     (case get_share_from_hash E password salt original_hash (IterStr its) of
        Inl e \<Rightarrow> (Inl e, s)
      | Inr share \<Rightarrow>
          (case c_share s sharenumber of
             Some value \<Rightarrow>
               (let original_share = b64enc E value;
                    new_share = b64enc E share
                in if \<not> constant_time_compare original_share new_share
                   then (Inl CachedShareMismatch, s)
                   else (Inr (), s))
           | None \<Rightarrow>
               (let s1 = s\<lparr>c_share := (c_share s)(sharenumber \<mapsto> share)\<rparr>;
                    sharenumbers = (case c_sharenumbers s1 of
                                      None \<Rightarrow> {||}
                                    | Some ns \<Rightarrow> if ns = {||} then {||} else ns);
                    sharenumbers' = finsert sharenumber sharenumbers;
                    s2 = s1\<lparr>c_sharenumbers := Some sharenumbers'\<rparr>
                in if int (fcard sharenumbers') \<ge> THRESHOLD E
                   then recombine E s2
                   else (Inr (), s2))))"

definition verify ::
  "'sh prims \<Rightarrow> bytes \<Rightarrow> string \<Rightarrow> 'sh engine \<Rightarrow> (error + bool) \<times> 'sh engine" where
  "verify E password encoded s0 =
     (let s1 = reload s0
      in case split_fields encoded of
           Inl e \<Rightarrow> (Inl e, s1)
         | Inr (alg, sharenumber, its, salt, original_hash) \<Rightarrow>
             if alg \<noteq> algorithm then (Inl AssertionError, s1)
             else if startswith_minus sharenumber
             then (let passhash = b64enc E (digest E password (Some salt) (IterStr its))
                   in (Inr (constant_time_compare passhash original_hash),
                       log_msg DEBUG (''verifying a locked account '' @ passhash) s1))
             else (case py_int sharenumber of
                     None \<Rightarrow> (Inl ValueError, s1)
                   | Some n \<Rightarrow>
                       if secret (data s1) \<noteq> None \<and> thresholdlesskey (data s1) \<noteq> None
                       then verify_unlocked E password salt original_hash its n s1
                       else (case (if n \<noteq> 0
                                   then cache_share E password salt original_hash its n s1
                                   else (Inr (), s1)) of
                               (Inl e, s2) \<Rightarrow> (Inl e, s2)
                             | (Inr u, s2) \<Rightarrow>
                                 if PARTIALBYTES E > 0
                                 then (let (result, s3) =
                                             partial_verify E password salt original_hash
                                               (IterStr its) n s2
                                       in (Inr result, s3))
                                 else (Inl LockedException, s2))))"

section \<open>Sequences of verifications\<close>


text \<open>The dictionary that \<^verbatim>\<open>load\<close> installs, the set of share numbers seen so far, and
  the locked state from which the accumulation of shares starts: the engine is locked
  before and after reloading, and no candidate share is cached.\<close>

definition loaded_data :: "'sh engine \<Rightarrow> 'sh hdata" where
  "loaded_data s = (case c_hasher s of Some d \<Rightarrow> d | None \<Rightarrow> defaults s)"

definition seen :: "'sh engine \<Rightarrow> int fset" where
  "seen s = (case c_sharenumbers s of None \<Rightarrow> {||} | Some ns \<Rightarrow> ns)"

definition locked_inv :: "'sh engine \<Rightarrow> bool" where
  "locked_inv s \<longleftrightarrow>
     \<not> is_unlocked (data s) \<and> \<not> is_unlocked (loaded_data s) \<and>
     (secret (loaded_data s) = None \<or> thresholdlesskey (loaded_data s) = None)"


text \<open>
  A successful verification of a threshold account of the store whose Shamir object is
  \<open>sh\<close>: the entry is a \<^verbatim>\<open>pph\<close> entry with the positive share number \<open>n\<close>, and
  the candidate share that \<^verbatim>\<open>verify\<close> derives from the password is the share \<open>n\<close>
  of \<open>sh\<close>, which is what the correct password gives.
\<close>

definition share_of :: "'sh prims \<Rightarrow> 'sh \<Rightarrow> int \<Rightarrow> bytes" where
  "share_of E sh n = (case compute_share E sh n of Inl e \<Rightarrow> [] | Inr share \<Rightarrow> snd share)"




text \<open>The cache holds exactly the shares of \<open>sh\<close> for the share numbers \<open>ns\<close>.\<close>

definition shares_cached :: "'sh prims \<Rightarrow> 'sh \<Rightarrow> int list \<Rightarrow> 'sh engine \<Rightarrow> bool" where
  "shares_cached E sh ns s \<longleftrightarrow>
     seen s = fset_of_list ns \<and>
     (\<forall>n. c_share s n = (if n \<in> set ns then Some (share_of E sh n) else None))"

section \<open>A reference instance of the collaborators\<close>

text \<open>
  The statements about the hasher hold for every choice of the collaborators that
  satisfies the stated assumptions. To exhibit the statements on concrete inputs, this
  section fixes one instance: the standard base64 codec, Shamir secret sharing over
  GF(2^8), and small stand-ins for the hash function, for PBKDF2 and for AES.
\<close>

subsection \<open>Base64\<close>

text \<open>
  Modelled from the spec: \<^verbatim>\<open>utils.b64enc\<close> and \<^verbatim>\<open>utils.bin64enc\<close> are not under the
  source tree. The specification says that base64 uses the standard alphabet with
  padding. The decoder skips characters outside the alphabet and reads up to the first
  padding character.
\<close>

definition b64_alphabet :: string where
  "b64_alphabet = ''ABCDEFGHIJKLMNOPQRSTUVWXYZabcdefghijklmnopqrstuvwxyz0123456789+/''"

definition b64_char :: "int \<Rightarrow> char" where
  "b64_char n = b64_alphabet ! nat n"

definition b64_index :: "char \<Rightarrow> int option" where
  "b64_index c = map_of (zip b64_alphabet [0 .. 63]) c"

fun b64_encode :: "bytes \<Rightarrow> string" where
  "b64_encode [] = []"
| "b64_encode [a] =
     (let n = (of_char a :: int)
      in [b64_char (n div 4), b64_char ((n mod 4) * 16), CHR ''='', CHR ''=''])"
| "b64_encode [a, b] =
     (let n = (of_char a :: int) * 256 + of_char b
      in [b64_char (n div 1024), b64_char (n div 16 mod 64), b64_char ((n mod 16) * 4),
          CHR ''=''])"
| "b64_encode (a # b # c # rest) =
     (let n = ((of_char a :: int) * 256 + of_char b) * 256 + of_char c
      in [b64_char (n div 262144), b64_char (n div 4096 mod 64), b64_char (n div 64 mod 64),
          b64_char (n mod 64)] @ b64_encode rest)"

fun b64_groups :: "int list \<Rightarrow> bytes option" where
  "b64_groups [] = Some []"
| "b64_groups [a] = None"
| "b64_groups [a, b] = Some [char_of ((a * 64 + b) div 16)]"
| "b64_groups [a, b, c] =
     (let n = (a * 64 + b) * 64 + c in Some [char_of (n div 1024), char_of (n div 4 mod 256)])"
| "b64_groups (a # b # c # d # rest) =
     (let n = ((a * 64 + b) * 64 + c) * 64 + d
      in case b64_groups rest of
           None \<Rightarrow> None
         | Some r \<Rightarrow> Some ([char_of (n div 65536), char_of (n div 256 mod 256),
                              char_of (n mod 256)] @ r))"

definition b64_decode :: "string \<Rightarrow> error + bytes" where
  "b64_decode s =
     (case b64_groups (List.map_filter b64_index (takeWhile (\<lambda>c. c \<noteq> CHR ''='') s)) of
        None \<Rightarrow> Inl LibraryError
      | Some b \<Rightarrow> Inr b)"

subsection \<open>Shamir secret sharing over GF(2^8)\<close>

text \<open>
  Modelled from the spec: the module \<^verbatim>\<open>shamirsecret\<close> is not under the source tree.
  The specification describes it: GF(2^8) in polynomial basis with the reduction
  polynomial \<^verbatim>\<open>0x11b\<close>; one polynomial of degree \<open>t - 1\<close> per byte of the secret,
  whose constant term is that byte; the share \<open>n\<close> is the list of the values of the
  polynomials at \<open>n\<close>; recovery interpolates through the first \<open>t\<close> shares and
  checks the remaining ones. A field element is an integer from 0 to 255, a polynomial
  the list of its coefficients, lowest first.
\<close>

definition gf_xtime :: "int \<Rightarrow> int" where
  "gf_xtime a = (if 256 \<le> 2 * a then xor (2 * a) 283 else 2 * a)"

fun gf_mul_loop :: "nat \<Rightarrow> int \<Rightarrow> int \<Rightarrow> int \<Rightarrow> int" where
  "gf_mul_loop 0 a b acc = acc"
| "gf_mul_loop (Suc k) a b acc =
     gf_mul_loop k (gf_xtime a) (b div 2) (if odd b then xor acc a else acc)"

definition gf_mul :: "int \<Rightarrow> int \<Rightarrow> int" where
  "gf_mul a b = gf_mul_loop 8 a b 0"

text \<open>The inverse of \<open>a\<close> is its power 254, the product of its powers 2, 4, ..., 128.\<close>

fun gf_inv_loop :: "nat \<Rightarrow> int \<Rightarrow> int \<Rightarrow> int" where
  "gf_inv_loop 0 p acc = acc"
| "gf_inv_loop (Suc k) p acc = gf_inv_loop k (gf_mul p p) (gf_mul acc (gf_mul p p))"

definition gf_inv :: "int \<Rightarrow> int" where
  "gf_inv a = gf_inv_loop 7 a 1"

definition gf_div :: "int \<Rightarrow> int \<Rightarrow> int" where
  "gf_div a b = gf_mul a (gf_inv b)"

definition poly_eval :: "int list \<Rightarrow> int \<Rightarrow> int" where
  "poly_eval p x = foldr (\<lambda>c acc. xor c (gf_mul acc x)) p 0"

definition poly_add :: "int list \<Rightarrow> int list \<Rightarrow> int list" where
  "poly_add p q = map2 xor p q"

text \<open>The product of \<open>p\<close> and the linear polynomial \<open>x + a\<close>.\<close>

definition poly_mul_linear :: "int list \<Rightarrow> int \<Rightarrow> int list" where
  "poly_mul_linear p a = poly_add (0 # p) (map (gf_mul a) p @ [0])"

text \<open>Lagrange interpolation: the polynomial of degree below the number of points
  that takes the value \<open>y\<close> at \<open>x\<close> for every point \<open>(x, y)\<close>.\<close>

definition lagrange_basis :: "(int \<times> int) list \<Rightarrow> int \<times> int \<Rightarrow> int list" where
  "lagrange_basis pts p =
     (let others = filter (\<lambda>q. fst q \<noteq> fst p) pts;
          numerator = foldl (\<lambda>acc q. poly_mul_linear acc (fst q)) [1] others;
          denominator = foldl (\<lambda>acc q. gf_mul acc (xor (fst p) (fst q))) 1 others
      in map (\<lambda>c. gf_mul c (gf_div (snd p) denominator)) numerator)"

fun interpolate_sum :: "(int \<times> int) list \<Rightarrow> (int \<times> int) list \<Rightarrow> int list" where
  "interpolate_sum pts [] = replicate (length pts) 0"
| "interpolate_sum pts (p # ps) = poly_add (lagrange_basis pts p) (interpolate_sum pts ps)"

definition interpolate :: "(int \<times> int) list \<Rightarrow> int list" where
  "interpolate pts = interpolate_sum pts pts"

datatype shamir = Shamir (sh_threshold: int) (sh_polys: "int list list option")

definition shamir_new :: "int \<Rightarrow> shamir" where
  "shamir_new t = Shamir t None"

definition shamir_compute_share :: "shamir \<Rightarrow> int \<Rightarrow> error + (int \<times> bytes)" where
  "shamir_compute_share sh n =
     (case sh_polys sh of
        None \<Rightarrow> Inl LibraryError
      | Some polys \<Rightarrow>
          if 1 \<le> n \<and> n \<le> 255
          then Inr (n, map (\<lambda>p. char_of (poly_eval p n)) polys)
          else Inl LibraryError)"

text \<open>The points of the polynomial of each byte position: position \<open>k\<close> of a list of
  shares \<open>(x, y)\<close> of length \<open>len\<close> gives the points \<open>(x, y[k])\<close>.\<close>

fun share_points :: "nat \<Rightarrow> (int \<times> bytes) list \<Rightarrow> (int \<times> int) list list" where
  "share_points 0 shares = []"
| "share_points (Suc len) shares =
     map (\<lambda>s. (fst s, of_char (hd (snd s)))) shares #
     share_points len (map (\<lambda>s. (fst s, tl (snd s))) shares)"

fun shares_consistent :: "shamir \<Rightarrow> (int \<times> bytes) list \<Rightarrow> bool" where
  "shares_consistent obj [] = True"
| "shares_consistent obj (s # rest) =
     (shamir_compute_share obj (fst s) = Inr s \<and> shares_consistent obj rest)"

definition shamir_recover :: "shamir \<Rightarrow> (int \<times> bytes) list \<Rightarrow> error + shamir" where
  "shamir_recover sh shares =
     (let t = nat (sh_threshold sh)
      in if \<not> distinct (map fst shares) \<or> length shares < t \<or> shares = []
         then Inl LibraryError
         else (let pts = take t shares;
                   polys = map interpolate (share_points (length (snd (hd pts))) pts);
                   obj = Shamir (sh_threshold sh) (Some polys)
               in if shares_consistent obj (drop t shares)
                  then Inr obj
                  else Inl LibraryError))"

definition shamir_secretdata :: "shamir \<Rightarrow> bytes" where
  "shamir_secretdata sh =
     (case sh_polys sh of None \<Rightarrow> [] | Some polys \<Rightarrow> map (\<lambda>p. char_of (hd p)) polys)"

subsection \<open>Stand-ins for the hash function, PBKDF2 and AES\<close>

text \<open>
  A five-byte checksum stands in for \<^verbatim>\<open>hashlib.sha256\<close>; the key derivation hashes
  the password, the salt (\<^verbatim>\<open>None\<close> is converted to text) and the iteration count, read
  as a number whether it arrives as an \<^verbatim>\<open>int\<close> or as a string; the cipher adds the
  key bytes to the data, cyclically.
\<close>

fun demo_sum :: "int \<Rightarrow> int \<Rightarrow> bytes \<Rightarrow> int" where
  "demo_sum j acc [] = acc"
| "demo_sum j acc (c # m) = demo_sum j ((33 * acc + of_char c + j) mod 256) m"

definition demo_hash :: "bytes \<Rightarrow> bytes" where
  "demo_hash m = [char_of (demo_sum 0 1 m), char_of (demo_sum 1 8 m), char_of (demo_sum 2 15 m),
                  char_of (demo_sum 3 22 m), char_of (demo_sum 4 29 m)]"

definition iters_value :: "iters \<Rightarrow> int" where
  "iters_value its =
     (case its of IterInt i \<Rightarrow> i | IterStr x \<Rightarrow> (case py_int x of None \<Rightarrow> 0 | Some i \<Rightarrow> i))"

definition demo_pbkdf2 :: "(bytes \<Rightarrow> bytes) \<Rightarrow> bytes \<Rightarrow> bytes option \<Rightarrow> iters \<Rightarrow> bytes" where
  "demo_pbkdf2 H password salt its =
     H (password @ ''|'' @ (case salt of None \<Rightarrow> ''None'' | Some x \<Rightarrow> x) @ ''|'' @
        [char_of (iters_value its mod 256), char_of (iters_value its div 256)])"

fun demo_aes_loop :: "bytes \<Rightarrow> nat \<Rightarrow> bytes \<Rightarrow> bytes" where
  "demo_aes_loop key i [] = []"
| "demo_aes_loop key i (c # x) =
     char_of ((of_char c :: int) + of_char (key ! (i mod length key))) #
     demo_aes_loop key (Suc i) x"

definition demo_aes :: "bytes \<Rightarrow> bytes \<Rightarrow> error + bytes" where
  "demo_aes key x = (if key = [] then Inl LibraryError else Inr (demo_aes_loop key 0 x))"

definition E0 :: "shamir prims" where
  "E0 = \<lparr> sha256 = demo_hash, pbkdf2 = demo_pbkdf2, b64enc = b64_encode, bin64enc = b64_encode,
          b64decode = b64_decode, aes_encrypt = demo_aes, ShamirSecret = shamir_new,
          compute_share = shamir_compute_share, recover_secretdata = shamir_recover,
          secretdata = shamir_secretdata, set_iter = sorted_list_of_fset,
          THRESHOLD = 2, PARTIALBYTES = 2, SECRET_LENGTH = 5, SECRET_VERIFICATION_BYTES = 2 \<rparr>"


subsection \<open>SHA-256, HMAC and PBKDF2\<close>

text \<open>
  The functions behind \<^verbatim>\<open>digest\<close> as the libraries compute them: \<^verbatim>\<open>hashlib.sha256\<close>
  (FIPS 180-4) on 32-bit words kept as integers, HMAC (RFC 2104) with the block size 64,
  and PBKDF2 (RFC 8018) for a derived key of one hash length, which is what Django's
  \<^verbatim>\<open>pbkdf2\<close> returns when no length is given. Django converts password and salt with
  \<^verbatim>\<open>force_bytes\<close>, which turns the salt \<^verbatim>\<open>None\<close> into the text \<^verbatim>\<open>None\<close>.
\<close>

definition add32 :: "int \<Rightarrow> int \<Rightarrow> int" where
  "add32 x y = (x + y) mod 4294967296"

definition rotr :: "nat \<Rightarrow> int \<Rightarrow> int" where
  "rotr n x = x div 2 ^ n + (x mod 2 ^ n) * 2 ^ (32 - n)"

definition shr :: "nat \<Rightarrow> int \<Rightarrow> int" where
  "shr n x = x div 2 ^ n"

definition not32 :: "int \<Rightarrow> int" where
  "not32 x = 4294967295 - x"

definition ch :: "int \<Rightarrow> int \<Rightarrow> int \<Rightarrow> int" where
  "ch x y z = xor (and x y) (and (not32 x) z)"

definition maj :: "int \<Rightarrow> int \<Rightarrow> int \<Rightarrow> int" where
  "maj x y z = xor (xor (and x y) (and x z)) (and y z)"

definition bsig0 :: "int \<Rightarrow> int" where
  "bsig0 x = xor (xor (rotr 2 x) (rotr 13 x)) (rotr 22 x)"

definition bsig1 :: "int \<Rightarrow> int" where
  "bsig1 x = xor (xor (rotr 6 x) (rotr 11 x)) (rotr 25 x)"

definition ssig0 :: "int \<Rightarrow> int" where
  "ssig0 x = xor (xor (rotr 7 x) (rotr 18 x)) (shr 3 x)"

definition ssig1 :: "int \<Rightarrow> int" where
  "ssig1 x = xor (xor (rotr 17 x) (rotr 19 x)) (shr 10 x)"

definition sha_k :: "int list" where
  "sha_k =
    [1116352408, 1899447441, 3049323471, 3921009573, 961987163, 1508970993, 2453635748, 2870763221,
     3624381080, 310598401, 607225278, 1426881987, 1925078388, 2162078206, 2614888103, 3248222580,
     3835390401, 4022224774, 264347078, 604807628, 770255983, 1249150122, 1555081692, 1996064986,
     2554220882, 2821834349, 2952996808, 3210313671, 3336571891, 3584528711, 113926993, 338241895,
     666307205, 773529912, 1294757372, 1396182291, 1695183700, 1986661051, 2177026350, 2456956037,
     2730485921, 2820302411, 3259730800, 3345764771, 3516065817, 3600352804, 4094571909, 275423344,
     430227734, 506948616, 659060556, 883997877, 958139571, 1322822218, 1537002063, 1747873779,
     1955562222, 2024104815, 2227730452, 2361852424, 2428436474, 2756734187, 3204031479, 3329325298]"

type_synonym sha_state = "int \<times> int \<times> int \<times> int \<times> int \<times> int \<times> int \<times> int"

definition sha_h0 :: sha_state where
  "sha_h0 = (1779033703, 3144134277, 1013904242, 2773480762,
             1359893119, 2600822924, 528734635, 1541459225)"

definition next_word :: "int list \<Rightarrow> int" where
  "next_word w = add32 (add32 (ssig1 (w ! 14)) (w ! 9)) (add32 (ssig0 (w ! 1)) (w ! 0))"

fun rounds :: "int list \<Rightarrow> int list \<Rightarrow> sha_state \<Rightarrow> sha_state" where
  "rounds [] w st = st"
| "rounds (k # ks) w (a, b, c, d, e, f, g, h) =
     (let t1 = add32 (add32 (add32 h (bsig1 e)) (add32 (ch e f g) k)) (hd w);
          t2 = add32 (bsig0 a) (maj a b c)
      in rounds ks (tl w @ [next_word w]) (add32 t1 t2, a, b, c, add32 d t1, e, f, g))"

definition add_state :: "sha_state \<Rightarrow> sha_state \<Rightarrow> sha_state" where
  "add_state x y =
     (case x of (a, b, c, d, e, f, g, h) \<Rightarrow>
      case y of (a', b', c', d', e', f', g', h') \<Rightarrow>
        (add32 a a', add32 b b', add32 c c', add32 d d', add32 e e', add32 f f', add32 g g',
         add32 h h'))"

fun words_of :: "int list \<Rightarrow> int list" where
  "words_of (a # b # c # d # rest) = (((a * 256 + b) * 256 + c) * 256 + d) # words_of rest"
| "words_of rest = []"

function blocks :: "sha_state \<Rightarrow> int list \<Rightarrow> sha_state" where
  "blocks hs ws =
     (if ws = [] then hs
      else blocks (add_state hs (rounds sha_k (take 16 ws) hs)) (drop 16 ws))"
  by pat_completeness auto
termination
  by (relation "measure (\<lambda>(hs, ws). length ws)") auto

definition be_bytes :: "nat \<Rightarrow> int \<Rightarrow> int list" where
  "be_bytes n x = map (\<lambda>i. (x div 256 ^ i) mod 256) (rev [0 ..< n])"

definition sha_pad :: "int list \<Rightarrow> int list" where
  "sha_pad m = m @ [128] @ replicate ((119 - length m mod 64) mod 64) 0 @
               be_bytes 8 (8 * int (length m))"

definition sha256_ints :: "int list \<Rightarrow> int list" where
  "sha256_ints m =
     (case blocks sha_h0 (words_of (sha_pad m)) of (a, b, c, d, e, f, g, h) \<Rightarrow>
        concat (map (be_bytes 4) [a, b, c, d, e, f, g, h]))"

definition sha256_std :: "string \<Rightarrow> string" where
  "sha256_std m = map char_of (sha256_ints (map of_char m))"

definition hmac :: "(bytes \<Rightarrow> bytes) \<Rightarrow> bytes \<Rightarrow> bytes \<Rightarrow> bytes" where
  "hmac H key msg =
     (let k0 = (if 64 < length key then H key else key);
          k = k0 @ replicate (64 - length k0) (CHR 0x00)
      in H (map (xor_char (CHR 0x5C)) k @ H (map (xor_char (CHR 0x36)) k @ msg)))"

fun pbkdf2_loop :: "(bytes \<Rightarrow> bytes) \<Rightarrow> bytes \<Rightarrow> nat \<Rightarrow> bytes \<Rightarrow> bytes \<Rightarrow> bytes" where
  "pbkdf2_loop H password 0 u acc = acc"
| "pbkdf2_loop H password (Suc k) u acc =
     pbkdf2_loop H password k (hmac H password u) (do_bytearray_xor acc (hmac H password u))"

definition pbkdf2_std :: "(bytes \<Rightarrow> bytes) \<Rightarrow> bytes \<Rightarrow> bytes option \<Rightarrow> iters \<Rightarrow> bytes" where
  "pbkdf2_std H password salt its =
     (let s = (case salt of None \<Rightarrow> ''None'' | Some x \<Rightarrow> x);
          u1 = hmac H password (s @ [CHR 0x00, CHR 0x00, CHR 0x00, CHR 0x01])
      in pbkdf2_loop H password (nat (iters_value its) - 1) u1 u1)"

text \<open>The reference instance with these functions and with the secret layout of the
  specification (256 bytes, of which the last 4 are the fingerprint), and a buffer of
  252 letters followed by the first four base64 characters of their SHA-256 hash.\<close>

definition E_std :: "shamir prims" where
  "E_std = E0\<lparr> sha256 := sha256_std, pbkdf2 := pbkdf2_std, SECRET_LENGTH := 256,
                SECRET_VERIFICATION_BYTES := 4 \<rparr>"

definition std_buffer :: bytes where
  "std_buffer = replicate 252 CHR ''a'' @ ''A6r1''"

subsection \<open>A store and its accounts\<close>

text \<open>
  A five-byte secret with a valid fingerprint, the Shamir object that splits it with
  threshold 2, the engine of a process that knows the secret, and the engine of a
  process that has just started with an empty cache.
\<close>

definition demo_secret :: bytes where
  "demo_secret = ''K7x'' @ py_upto (b64_encode (demo_pbkdf2 demo_hash ''K7x'' None (IterInt 1))) 2"

definition demo_shamir :: shamir where
  "demo_shamir = Shamir 2 (Some (map2 (\<lambda>c k. [of_char c, k]) demo_secret [17, 202, 5, 99, 140]))"

definition demo_unlocked :: "shamir engine" where
  "demo_unlocked =
     (fresh_engine (\<lambda>t. []) 0)
       \<lparr> own_data := \<lparr> is_unlocked = True, secret = Some demo_secret, nextavailableshare = 1,
                        shamirsecretobj = Some demo_shamir,
                        thresholdlesskey = Some demo_secret, last_unlocked = 0 \<rparr> \<rparr>"

definition demo_locked :: "shamir engine" where
  "demo_locked = fresh_engine (\<lambda>t. []) 0"

text \<open>The stored hash of a threshold account, as the unlocked engine computes it.\<close>

definition demo_stored :: "bytes \<Rightarrow> string \<Rightarrow> int \<Rightarrow> string" where
  "demo_stored password salt n =
     (case polyhash_entry E0 demo_unlocked password salt n of Inl e \<Rightarrow> [] | Inr x \<Rightarrow> x)"

text \<open>
  The entries that the unlocked engine emits for the accounts \<^verbatim>\<open>("pw1", "$a$")\<close> and
  \<^verbatim>\<open>("pw2", "$b$")\<close>, and the entry that the freshly started (locked) engine emits
  for \<^verbatim>\<open>("pw1", "$a$")\<close>.
\<close>

definition demo_entry1 :: string where
  "demo_entry1 = ''pph$1$12000$a$mrKjOzg=bfw=''"


definition demo_locked_entry :: string where
  "demo_locked_entry = ''pph$-1$12000$a$wE/ebfw=''"

text \<open>A locked engine whose cache holds the share of the first account, as it does
  after that account has logged in with its password; a locked engine whose cache holds
  two candidate shares that do not belong to the store; and the reference instance with the partial bytes switched off.\<close>

definition demo_cached :: "shamir engine" where
  "demo_cached = demo_locked\<lparr> c_share := [1 \<mapsto> [CHR ''Z'', CHR 0xFD, CHR ''}'', CHR ''V'', CHR 0xC4]],
                              c_sharenumbers := Some {|1|} \<rparr>"

definition demo_bogus :: "shamir engine" where
  "demo_bogus = demo_locked\<lparr> c_share := [1 \<mapsto> ''abcde'', 2 \<mapsto> ''fghij''],
                             c_sharenumbers := Some {|1, 2|} \<rparr>"

definition E0_nopartial :: "shamir prims" where
  "E0_nopartial = E0\<lparr> PARTIALBYTES := 0 \<rparr>"

section \<open>Basic facts about the state\<close>

lemma data_map_data [simp]: "data (map_data f s) = f (data s)"
  by (simp add: data_def map_data_def)

lemma data_update [simp]: "data (update s) = data s"
  by (simp add: data_def update_def)

lemma data_log_msg [simp]: "data (log_msg l m s) = data s"
  by (simp add: data_def log_msg_def)

lemma data_cache_upd [simp]:
  "data (s\<lparr>c_share := a\<rparr>) = data s"
  "data (s\<lparr>c_sharenumbers := b\<rparr>) = data s"
  "data (s\<lparr>c_partial_hashes := c\<rparr>) = data s"
  by (simp_all add: data_def)

lemma c_hasher_update [simp]: "c_hasher (update s) = Some (data s)"
  by (simp add: update_def)

lemma c_hasher_log_msg [simp]: "c_hasher (log_msg l m s) = c_hasher s"
  by (simp add: log_msg_def)

lemma c_hasher_map_data [simp]: "c_hasher (map_data f s) = c_hasher s"
  by (simp add: map_data_def)

lemma c_hasher_reload [simp]: "c_hasher (reload s) = c_hasher s"
  by (simp add: reload_def load_def split: option.splits)

lemma cache_log_msg [simp]:
  "c_share (log_msg l m s) = c_share s"
  "c_sharenumbers (log_msg l m s) = c_sharenumbers s"
  "c_partial_hashes (log_msg l m s) = c_partial_hashes s"
  by (simp_all add: log_msg_def)

lemma cache_map_data [simp]:
  "c_share (map_data f s) = c_share s"
  "c_sharenumbers (map_data f s) = c_sharenumbers s"
  "c_partial_hashes (map_data f s) = c_partial_hashes s"
  "logged (map_data f s) = logged s"
  "users_since (map_data f s) = users_since s"
  "now (map_data f s) = now s"
  by (simp_all add: map_data_def)

lemma cache_update [simp]:
  "c_share (update s) = c_share s"
  "c_sharenumbers (update s) = c_sharenumbers s"
  "c_partial_hashes (update s) = c_partial_hashes s"
  "logged (update s) = logged s"
  by (simp_all add: update_def)

lemma cache_reload [simp]:
  "c_share (reload s) = c_share s"
  "c_sharenumbers (reload s) = c_sharenumbers s"
  "c_partial_hashes (reload s) = c_partial_hashes s"
  "logged (reload s) = logged s"
  by (simp_all add: reload_def load_def split: option.splits)

lemma logged_log_msg [simp]: "logged (log_msg l m s) = logged s @ [(l, m)]"
  by (simp add: log_msg_def)

lemma py_upto_nonneg: "0 \<le> i \<Longrightarrow> py_upto s i = take (nat i) s"
  by (simp add: py_upto_def)

lemma py_from_nonneg: "0 \<le> i \<Longrightarrow> py_from s i = drop (nat i) s"
  by (simp add: py_from_def)

lemma py_from_length [simp]: "py_from s (int (length s)) = []"
  by (simp add: py_from_def)

lemma snd_case_sum_same [simp]:
  "snd (case x of Inl e \<Rightarrow> (f e, s) | Inr v \<Rightarrow> (g v, s)) = s"
  by (cases x) simp_all

section \<open>Partial verification\<close>

lemma partial_verify_result:
  "fst (partial_verify E password salt passhash its n s) =
     (py_from (b64enc E (digest E password (Some salt) its))
        (int (length (b64enc E (digest E password (Some salt) its))) - PARTIALBYTES E) =
      py_from passhash (int (length passhash) - PARTIALBYTES E))"
  by (simp add: partial_verify_def Let_def constant_time_compare_def)

lemma partial_verify_state:
  "snd (partial_verify E password salt passhash its n s) =
     (if fst (partial_verify E password salt passhash its n s)
      then s\<lparr>c_partial_hashes :=
               Some (let d = (case c_partial_hashes s of None \<Rightarrow> [] | Some d \<Rightarrow> d)
                     in if passhash \<notin> fst ` set d
                        then d @ [(passhash, n, b64enc E (digest E password (Some salt) its))]
                        else d)\<rparr>
      else s)"
  by (simp add: partial_verify_def Let_def)

lemma partial_verify_keeps [simp]:
  "data (snd (partial_verify E password salt passhash its n s)) = data s"
  "c_share (snd (partial_verify E password salt passhash its n s)) = c_share s"
  "c_sharenumbers (snd (partial_verify E password salt passhash its n s)) = c_sharenumbers s"
  "c_hasher (snd (partial_verify E password salt passhash its n s)) = c_hasher s"
  "logged (snd (partial_verify E password salt passhash its n s)) = logged s"
  by (simp_all add: partial_verify_state)

lemma partial_verify_records:
  assumes "fst (partial_verify E password salt passhash its n s)"
  shows "\<exists>d. c_partial_hashes (snd (partial_verify E password salt passhash its n s)) = Some d \<and>
             passhash \<in> fst ` set d"
  using assms by (auto simp add: partial_verify_state Let_def image_iff)


section \<open>The locked branch of verify\<close>

lemma verify_locked_eq:
  assumes fields: "split_fields encoded = Inr (algorithm, sharenumber, its, salt, original_hash)"
    and plain: "\<not> startswith_minus sharenumber"
    and num: "py_int sharenumber = Some n"
    and locked: "secret (data (reload s)) = None \<or> thresholdlesskey (data (reload s)) = None"
  shows "verify E password encoded s =
           (case (if n \<noteq> 0 then cache_share E password salt original_hash its n (reload s)
                  else (Inr (), reload s)) of
              (Inl e, s2) \<Rightarrow> (Inl e, s2)
            | (Inr u, s2) \<Rightarrow>
                if PARTIALBYTES E > 0
                then (Inr (fst (partial_verify E password salt original_hash (IterStr its) n s2)),
                      snd (partial_verify E password salt original_hash (IterStr its) n s2))
                else (Inl LockedException, s2))"
  using fields plain num locked
  by (auto simp add: verify_def Let_def split_beta split: prod.splits sum.splits)

section \<open>Accumulating candidate shares\<close>


lemma data_load [simp]: "data (load s) = loaded_data s"
  by (simp add: data_def load_def loaded_data_def split: option.splits)

lemma load_frame [simp]:
  "c_hasher (load s) = c_hasher s"
  "defaults (load s) = defaults s"
  "c_share (load s) = c_share s"
  "c_sharenumbers (load s) = c_sharenumbers s"
  by (simp_all add: load_def split: option.splits)

lemma loaded_data_frame [simp]:
  "loaded_data (load s) = loaded_data s"
  "loaded_data (s\<lparr>c_share := a\<rparr>) = loaded_data s"
  "loaded_data (s\<lparr>c_sharenumbers := b\<rparr>) = loaded_data s"
  "loaded_data (s\<lparr>c_partial_hashes := c\<rparr>) = loaded_data s"
  "loaded_data (log_msg l m s) = loaded_data s"
  by (simp_all add: loaded_data_def log_msg_def split: option.splits)

lemma loaded_data_partial_verify [simp]:
  "loaded_data (snd (partial_verify E password salt passhash its n s)) = loaded_data s"
  by (simp add: partial_verify_state)

lemma seen_frame [simp]:
  "seen (load s) = seen s"
  "seen (s\<lparr>c_share := a\<rparr>) = seen s"
  "seen (s\<lparr>c_partial_hashes := c\<rparr>) = seen s"
  "seen (log_msg l m s) = seen s"
  "seen (s\<lparr>c_sharenumbers := Some ns\<rparr>) = ns"
  by (simp_all add: seen_def)

lemma seen_partial_verify [simp]:
  "seen (snd (partial_verify E password salt passhash its n s)) = seen s"
  by (simp add: seen_def)

lemma locked_inv_frame [simp]:
  "locked_inv (s\<lparr>c_share := a\<rparr>) = locked_inv s"
  "locked_inv (s\<lparr>c_sharenumbers := b\<rparr>) = locked_inv s"
  "locked_inv (log_msg l m s) = locked_inv s"
  "locked_inv (snd (partial_verify E password salt passhash its n s)) = locked_inv s"
  by (simp_all add: locked_inv_def)



lemma cache_share_cached:
  assumes "get_share_from_hash E password salt original_hash (IterStr its) = Inr share"
    and "c_share s n = Some v"
  shows "cache_share E password salt original_hash its n s =
           (if b64enc E v \<noteq> b64enc E share then (Inl CachedShareMismatch, s) else (Inr (), s))"
  using assms by (simp add: cache_share_def Let_def constant_time_compare_def)







section \<open>Reaching the threshold\<close>

lemma data_verify_previous_loop [simp]:
  "data (snd (verify_previous_loop E xs s)) = data s"
proof (induction xs arbitrary: s)
  case Nil
  then show ?case by simp
next
  case (Cons x xs)
  obtain original_hash n saltedhash where x: "x = (original_hash, n, saltedhash)"
    by (cases x) auto
  show ?case
    unfolding x
    by (simp add: Cons.IH Let_def split: sum.splits option.splits)
qed







lemma shares_cached_partial_verify [simp]:
  "shares_cached E sh ns (snd (partial_verify E' password salt passhash its n s)) =
   shares_cached E sh ns s"
  by (simp add: shares_cached_def)





section \<open>Facts about encode\<close>

lemma encode_data:
  "data (snd (encode E password salt its s)) =
     (if CHR ''$'' \<in> set salt
      then (data (reload s))\<lparr>nextavailableshare := nextavailableshare (data (reload s)) + 1\<rparr>
      else data (reload s))"
  by (simp add: encode_def Let_def)

lemma encode_c_hasher:
  "c_hasher (snd (encode E password salt its s)) =
     (if CHR ''$'' \<in> set salt
      then Some ((data (reload s))\<lparr>nextavailableshare := nextavailableshare (data (reload s)) + 1\<rparr>)
      else c_hasher s)"
  by (simp add: encode_def Let_def)

lemma encode_out:
  assumes "fst (encode E password salt its s) = Inr out"
  shows "\<exists>mark passhash. mark \<in> {''$'', ''$-''} \<and>
           out = algorithm @ mark @
                 str_int (if CHR ''$'' \<in> set salt then nextavailableshare (data (reload s)) else 0) @
                 ''$'' @ str_int (case its of None \<Rightarrow> iterations | Some i \<Rightarrow> i) @ ''$'' @
                 (if CHR ''$'' \<in> set salt then strip_char CHR ''$'' salt else salt) @ ''$'' @ passhash"
proof -
  define s2 where "s2 = (if CHR ''$'' \<in> set salt
      then update (map_data (\<lambda>d. d\<lparr>nextavailableshare := nextavailableshare d + 1\<rparr>) (reload s))
      else reload s)"
  define n where "n = (if CHR ''$'' \<in> set salt then nextavailableshare (data (reload s)) else 0)"
  define salt' where "salt' = (if CHR ''$'' \<in> set salt then strip_char CHR ''$'' salt else salt)"
  define i where "i = (case its of None \<Rightarrow> iterations | Some i \<Rightarrow> i)"
  have enc: "encode E password salt its s =
     (if \<not> is_unlocked (data s2) \<or> thresholdlesskey (data s2) = None
      then (Inr (algorithm @ ''$-'' @ str_int n @ ''$'' @ str_int i @ ''$'' @ salt' @ ''$'' @
                 b64enc E (digest E password (Some salt') (IterInt i))),
            log_msg DEBUG (''creating locked-account '' @
                 b64enc E (digest E password (Some salt') (IterInt i))) s2)
      else (case (if n = 0 then encrypt_entry E s2 password salt'
                  else polyhash_entry E s2 password salt' n) of
              Inl e \<Rightarrow> (Inl e, s2)
            | Inr passhash \<Rightarrow>
                (Inr (algorithm @ ''$'' @ str_int n @ ''$'' @ str_int i @ ''$'' @ salt' @ ''$'' @
                      passhash), s2)))"
    by (simp add: encode_def Let_def s2_def n_def salt'_def i_def cong: sum.case_cong)
  show ?thesis
  proof (cases "\<not> is_unlocked (data s2) \<or> thresholdlesskey (data s2) = None")
    case True
    with assms enc have "out = algorithm @ ''$-'' @ str_int n @ ''$'' @ str_int i @ ''$'' @ salt' @
        ''$'' @ b64enc E (digest E password (Some salt') (IterInt i))"
      by simp
    then show ?thesis unfolding n_def salt'_def i_def by blast
  next
    case False
    define x where "x = (if n = 0 then encrypt_entry E s2 password salt'
                  else polyhash_entry E s2 password salt' n)"
    have e2: "encode E password salt its s =
        (case x of Inl e \<Rightarrow> (Inl e, s2)
         | Inr passhash \<Rightarrow>
             (Inr (algorithm @ ''$'' @ str_int n @ ''$'' @ str_int i @ ''$'' @ salt' @ ''$'' @
                   passhash), s2))"
    proof -
      from False obtain key where u: "is_unlocked (data s2)"
        and k: "thresholdlesskey (data s2) = Some key"
        by auto
      show ?thesis unfolding enc x_def using u k by simp
    qed
    show ?thesis
    proof (cases x)
      case (Inl e)
      with assms show ?thesis unfolding e2 by simp
    next
      case (Inr passhash)
      with assms have
        "out = algorithm @ ''$'' @ str_int n @ ''$'' @ str_int i @ ''$'' @ salt' @ ''$'' @ passhash"
        unfolding e2 by simp
      then show ?thesis unfolding n_def salt'_def i_def by blast
    qed
  qed
qed

section \<open>Facts about the fingerprint and about XOR\<close>

lemma verify_secret_iff:
  assumes "int (length buf) = SECRET_LENGTH E" "0 \<le> SECRET_VERIFICATION_BYTES E"
    "SECRET_VERIFICATION_BYTES E \<le> SECRET_LENGTH E"
  shows "verify_secret E buf \<longleftrightarrow>
           drop (nat (SECRET_LENGTH E - SECRET_VERIFICATION_BYTES E)) buf =
           take (nat (SECRET_VERIFICATION_BYTES E))
             (b64enc E (digest E (take (nat (SECRET_LENGTH E - SECRET_VERIFICATION_BYTES E)) buf)
                None (IterInt 1)))"
  using assms by (simp add: verify_secret_def Let_def binary_type_def constant_time_compare_def
      py_upto_nonneg py_from_nonneg)

lemma drop_list_update_neq:
  assumes "k \<le> i" "i < length xs" "c \<noteq> xs ! i"
  shows "drop k (xs[i := c]) \<noteq> drop k xs"
proof
  assume "drop k (xs[i := c]) = drop k xs"
  then have "drop k (xs[i := c]) ! (i - k) = drop k xs ! (i - k)" by simp
  with assms show False by simp
qed

lemma of_char_int_bounds: "0 \<le> (of_char c :: int) \<and> (of_char c :: int) < 2 ^ 8"
proof -
  obtain k :: int where k: "of_char c = k mod 256"
    by (metis of_char_mod_256)
  show ?thesis unfolding k by simp
qed

lemma xor_char_cancel: "xor_char (xor_char a b) a = b"
proof -
  have nn: "0 \<le> xor (of_char a :: int) (of_char b)"
    using of_char_int_bounds by simp
  have lt: "xor (of_char a :: int) (of_char b) < 2 ^ 8"
    using of_char_int_bounds by (intro XOR_upper) auto
  have "(of_char (char_of (xor (of_char a :: int) (of_char b))) :: int) =
        xor (of_char a) (of_char b)"
    using nn lt by (simp add: of_char_of)
  then have "xor_char (xor_char a b) a = char_of (xor (xor (of_char a :: int) (of_char b)) (of_char a))"
    unfolding xor_char_def by simp
  also have "xor (xor (of_char a :: int) (of_char b)) (of_char a) = of_char b"
    by (simp add: xor.commute xor.left_commute)
  finally show ?thesis by simp
qed

lemma do_bytearray_xor_cancel:
  "length a = length b \<Longrightarrow> do_bytearray_xor (do_bytearray_xor a b) a = b"
  unfolding do_bytearray_xor_def
  by (induction a b rule: list_induct2) (simp_all add: xor_char_cancel)

section \<open>SHA-256 and PBKDF2 on test vectors\<close>

text \<open>
  The definitions of SHA-256 and of PBKDF2 with HMAC-SHA-256 give the published values:
  the hash of \<^verbatim>\<open>abc\<close> (FIPS 180-4) and the key derived from the password
  \<^verbatim>\<open>password\<close> and the salt \<^verbatim>\<open>salt\<close> with two iterations.
\<close>

lemma sha256_std_abc:
  "map of_char (sha256_std ''abc'') =
     [186, 120, 22, 191, 143, 1, 207, 234, 65, 65, 64, 222, 93, 174, 34, 35,
      176, 3, 97, 163, 150, 23, 122, 156, 180, 16, 255, 97, 242, 0, 21, 173 :: int]"
  by code_simp

lemma pbkdf2_std_password_salt:
  "map of_char (pbkdf2_std sha256_std ''password'' (Some ''salt'') (IterInt 2)) =
     [174, 77, 12, 149, 175, 107, 70, 211, 45, 10, 223, 249, 40, 240, 109, 208,
      42, 48, 63, 142, 243, 194, 81, 223, 214, 226, 216, 90, 149, 71, 76, 67 :: int]"
  by code_simp

section \<open>The share behind a stored hash\<close>

text \<open>
  Let \<open>stored\<close> be the stored hash that \<^verbatim>\<open>_polyhash_entry\<close> computes for a password, a
  salt and the share number \<open>n\<close> under the Shamir object of the engine. When
  \<^verbatim>\<open>_get_share_from_hash\<close> is called with the same password and salt and with the
  iteration count that \<^verbatim>\<open>_polyhash_entry\<close> uses (the class attribute
  \<^verbatim>\<open>iterations\<close>), it returns exactly the bytes of \<^verbatim>\<open>compute_share(n)[1]\<close>. The
  assumptions describe the collaborators: the share is as long as the PBKDF2 output
  \<open>h\<close>; the partial bytes are not more than the characters that their base64 text
  \<open>tail\<close> has; and \<^verbatim>\<open>b64decode\<close> returns the bytes \<open>x\<close> when it is given
  \<^verbatim>\<open>bin64enc(x)\<close> followed by what is left of \<open>tail\<close> after cutting
  \<^verbatim>\<open>partialbytes\<close> characters from the end of the stored hash.
\<close>

lemma share_recovered_default_iterations:
  fixes E :: "'sh prims"
  defines "P \<equiv> PARTIALBYTES E"
  assumes obj: "shamirsecretobj (data s) = Some sh"
    and sh: "compute_share E sh n = Inr (m, share)"
    and h: "h = digest E password (Some salt) (IterInt iterations)"
    and len: "length share = length h"
    and tl: "tail = b64enc E (py_from h (int (length h) - P))"
    and P: "0 \<le> P" "nat P \<le> length tail"
    and dec: "b64decode E (bin64enc E (do_bytearray_xor h share) @ take (length tail - nat P) tail) =
              Inr (do_bytearray_xor h share)"
  shows "polyhash_entry E s password salt n = Inr (bin64enc E (do_bytearray_xor h share) @ tail) \<and>
         get_share_from_hash E password salt (bin64enc E (do_bytearray_xor h share) @ tail)
           (IterInt iterations) = Inr share"
proof -
  let ?x = "do_bytearray_xor h share"
  have p: "polyhash_entry E s password salt n = Inr (bin64enc E ?x @ tail)"
    using obj sh by (simp add: polyhash_entry_def Let_def h tl P_def)
  have cut: "py_upto (bin64enc E ?x @ tail) (int (length (bin64enc E ?x @ tail)) - P) =
             bin64enc E ?x @ take (length tail - nat P) tail"
    using P by (simp add: py_upto_nonneg nat_diff_distrib nat_add_distrib)
  have "get_share_from_hash E password salt (bin64enc E ?x @ tail) (IterInt iterations) =
        Inr (do_bytearray_xor ?x h)"
    using dec cut unfolding get_share_from_hash_def binary_type_def Let_def h [symmetric] P_def [symmetric]
    by simp
  moreover have "do_bytearray_xor ?x h = share"
    using len by (simp add: do_bytearray_xor_cancel)
  ultimately show ?thesis using p by simp
qed

lemma share_recovered_default_iterations_example:
  "compute_share E0 demo_shamir 1 = Inr (1, [CHR ''Z'', CHR 0xFD, CHR ''}'', CHR ''V'', CHR 0xC4]) \<and>
   polyhash_entry E0 demo_unlocked ''pw1'' ''a'' 1 = Inr ''mrKjOzg=bfw='' \<and>
   get_share_from_hash E0 ''pw1'' ''a'' ''mrKjOzg=bfw='' (IterInt iterations) =
     Inr [CHR ''Z'', CHR 0xFD, CHR ''}'', CHR ''V'', CHR 0xC4]"
proof -
  let ?share = "[CHR ''Z'', CHR 0xFD, CHR ''}'', CHR ''V'', CHR 0xC4]"
  let ?h = "digest E0 ''pw1'' (Some ''a'') (IterInt iterations)"
  let ?tail = "b64enc E0 (py_from ?h (int (length ?h) - PARTIALBYTES E0))"
  have obj: "shamirsecretobj (data demo_unlocked) = Some demo_shamir" by code_simp
  have sh: "compute_share E0 demo_shamir 1 = Inr (1, ?share)" by code_simp
  have len: "length ?share = length ?h" by code_simp
  have P: "0 \<le> PARTIALBYTES E0" "nat (PARTIALBYTES E0) \<le> length ?tail" by code_simp+
  have dec: "b64decode E0 (bin64enc E0 (do_bytearray_xor ?h ?share) @
               take (length ?tail - nat (PARTIALBYTES E0)) ?tail) =
             Inr (do_bytearray_xor ?h ?share)"
    by code_simp
  have st: "bin64enc E0 (do_bytearray_xor ?h ?share) @ ?tail = ''mrKjOzg=bfw=''" by code_simp
  note main = share_recovered_default_iterations [OF obj sh refl len refl P dec]
  show ?thesis using main sh unfolding st by simp
qed

text \<open>
  \<^verbatim>\<open>encode\<close> writes the iteration count of its caller into the entry, while the stored
  hash of the entry is the one that \<^verbatim>\<open>_polyhash_entry\<close> computes with the class
  attribute: for the count 1000 the stored hash is the same as for the default count.
\<close>

lemma encode_nondefault_iterations:
  "fst (encode E0 ''pw1'' ''$a$'' (Some 1000) demo_unlocked) = Inr ''pph$1$1000$a$mrKjOzg=bfw='' \<and>
   fst (encode E0 ''pw1'' ''$a$'' None demo_unlocked) = Inr ''pph$1$12000$a$mrKjOzg=bfw='' \<and>
   split_fields ''pph$1$1000$a$mrKjOzg=bfw='' =
     Inr (''pph'', ''1'', ''1000'', ''a'', ''mrKjOzg=bfw='')"
proof -
  have a: "fst (encode E0 ''pw1'' ''$a$'' (Some 1000) demo_unlocked) =
           Inr ''pph$1$1000$a$mrKjOzg=bfw=''"
    by code_simp
  have b: "fst (encode E0 ''pw1'' ''$a$'' None demo_unlocked) = Inr ''pph$1$12000$a$mrKjOzg=bfw=''"
    by code_simp
  have c: "split_fields ''pph$1$1000$a$mrKjOzg=bfw='' =
           Inr (''pph'', ''1'', ''1000'', ''a'', ''mrKjOzg=bfw='')"
    by code_simp
  show ?thesis using a b c by simp
qed

section \<open>The claims\<close>



text \<open>
  Claim C2 (fingerprint of the secret), as amended. For a buffer of length
  \<^verbatim>\<open>SECRET_LENGTH\<close>, \<^verbatim>\<open>verify_secret\<close> returns true if and only if the trailing
  \<^verbatim>\<open>SECRET_VERIFICATION_BYTES\<close> bytes of the buffer equal the first
  \<^verbatim>\<open>SECRET_VERIFICATION_BYTES\<close> characters of the base64 text of
  \<^verbatim>\<open>digest(random_data, None, 1)\<close>, where \<^verbatim>\<open>random_data\<close> are the leading bytes and
  \<^verbatim>\<open>digest\<close> is the hasher's \<^verbatim>\<open>pbkdf2\<close> with the salt \<^verbatim>\<open>None\<close>, one iteration and
  \<^verbatim>\<open>hashlib.sha256\<close> as its hash function; changing any one of the trailing bytes of
  an accepted buffer makes it return false. The source does not apply
  \<^verbatim>\<open>hashlib.sha256\<close> to the leading bytes directly.
\<close>

theorem verify_secret_fingerprint:
  fixes E :: "'sh prims"
  defines "L \<equiv> SECRET_LENGTH E" and "V \<equiv> SECRET_VERIFICATION_BYTES E"
  assumes V: "0 \<le> V" "V \<le> L"
  shows "(\<forall>buf. int (length buf) = L \<longrightarrow>
            (verify_secret E buf \<longleftrightarrow>
               drop (nat (L - V)) buf =
               take (nat V) (b64enc E (digest E (take (nat (L - V)) buf) None (IterInt 1))))) \<and>
         (\<forall>buf i c. int (length buf) = L \<and> verify_secret E buf \<and>
            nat (L - V) \<le> i \<and> i < nat L \<and> c \<noteq> buf ! i \<longrightarrow>
            \<not> verify_secret E (buf[i := c]))"
proof (intro conjI allI impI)
  fix buf :: bytes
  assume "int (length buf) = L"
  then show "verify_secret E buf \<longleftrightarrow>
               drop (nat (L - V)) buf =
               take (nat V) (b64enc E (digest E (take (nat (L - V)) buf) None (IterInt 1)))"
    using V unfolding L_def V_def by (rule verify_secret_iff)
next
  fix buf :: bytes and i c
  assume a: "int (length buf) = L \<and> verify_secret E buf \<and>
            nat (L - V) \<le> i \<and> i < nat L \<and> c \<noteq> buf ! i"
  then have len: "int (length buf) = L" and ok: "verify_secret E buf"
    and i: "nat (L - V) \<le> i" "i < length buf" and c: "c \<noteq> buf ! i"
    by auto
  have len': "int (length (buf[i := c])) = L" using len by simp
  have pre: "take (nat (L - V)) (buf[i := c]) = take (nat (L - V)) buf"
    using i by simp
  have suf: "drop (nat (L - V)) (buf[i := c]) \<noteq> drop (nat (L - V)) buf"
    using i c by (rule drop_list_update_neq)
  have "drop (nat (L - V)) buf =
        take (nat V) (b64enc E (digest E (take (nat (L - V)) buf) None (IterInt 1)))"
    using verify_secret_iff [of buf E] len V ok unfolding L_def V_def by simp
  with suf pre show "\<not> verify_secret E (buf[i := c])"
    using verify_secret_iff [of "buf[i := c]" E] len' V unfolding L_def V_def by simp
qed

theorem verify_secret_fingerprint_witness:
  "SECRET_LENGTH E0 = 5 \<and> SECRET_VERIFICATION_BYTES E0 = 2 \<and> length demo_secret = 5 \<and>
   verify_secret E0 demo_secret \<and>
   drop 3 demo_secret = take 2 (b64enc E0 (digest E0 (take 3 demo_secret) None (IterInt 1))) \<and>
   \<not> verify_secret E0 (demo_secret[3 := CHR ''x'']) \<and>
   \<not> verify_secret E0 (demo_secret[4 := CHR ''x''])"
proof -
  have L: "SECRET_LENGTH E0 = 5" and V: "SECRET_VERIFICATION_BYTES E0 = 2" by code_simp+
  have len: "length demo_secret = 5" by code_simp
  have ok: "verify_secret E0 demo_secret" by code_simp
  have c3: "CHR ''x'' \<noteq> demo_secret ! 3" and c4: "CHR ''x'' \<noteq> demo_secret ! 4" by code_simp+
  have V0: "0 \<le> SECRET_VERIFICATION_BYTES E0" "SECRET_VERIFICATION_BYTES E0 \<le> SECRET_LENGTH E0"
    by (simp_all add: L V)
  note main = verify_secret_fingerprint [of E0, OF V0, unfolded L V]
  have eq: "drop 3 demo_secret =
            take 2 (b64enc E0 (digest E0 (take 3 demo_secret) None (IterInt 1)))"
    using main [THEN conjunct1, rule_format, of demo_secret] len ok by simp
  have n3: "\<not> verify_secret E0 (demo_secret[3 := CHR ''x''])"
    using main [THEN conjunct2, rule_format, of demo_secret 3 "CHR ''x''"] len ok c3 by simp
  have n4: "\<not> verify_secret E0 (demo_secret[4 := CHR ''x''])"
    using main [THEN conjunct2, rule_format, of demo_secret 4 "CHR ''x''"] len ok c4 by simp
  show ?thesis using L V len ok eq n3 n4 by simp
qed

text \<open>
  The claim as it is written takes the hash of the leading bytes to be their SHA-256
  hash. With SHA-256, HMAC and PBKDF2 as the libraries compute them and the default
  layout (256 bytes, the last 4 the fingerprint), the buffer of 252 letters \<^verbatim>\<open>a\<close>
  followed by \<^verbatim>\<open>A6r1\<close>, the first four base64 characters of the SHA-256 hash of
  those letters, is rejected: the single-iteration PBKDF2 of the letters with the salt
  \<^verbatim>\<open>None\<close> is another byte string, whose base64 text starts with \<^verbatim>\<open>hOME\<close>.
\<close>

theorem verify_secret_sha256_counterexample:
  "SECRET_LENGTH E_std = 256 \<and> SECRET_VERIFICATION_BYTES E_std = 4 \<and>
   length std_buffer = 256 \<and>
   drop 252 std_buffer = take 4 (b64enc E_std (sha256 E_std (take 252 std_buffer))) \<and>
   take 4 (b64enc E_std (digest E_std (take 252 std_buffer) None (IterInt 1))) = ''hOME'' \<and>
   \<not> verify_secret E_std std_buffer"
proof -
  have a: "SECRET_LENGTH E_std = 256" "SECRET_VERIFICATION_BYTES E_std = 4" by code_simp+
  have b: "length std_buffer = 256" by code_simp
  have c: "drop 252 std_buffer = take 4 (b64enc E_std (sha256 E_std (take 252 std_buffer)))"
    by code_simp
  have d: "take 4 (b64enc E_std (digest E_std (take 252 std_buffer) None (IterInt 1))) = ''hOME''"
    by code_simp
  have e: "drop 252 std_buffer = ''A6r1''" by code_simp
  have "\<not> verify_secret E_std std_buffer"
    using verify_secret_iff [of std_buffer E_std] a b d e by simp
  then show ?thesis using a b c d by simp
qed

text \<open>
  Claim C3 (allocation of share numbers by \<^verbatim>\<open>encode\<close>), as the source implements it.
  \<^verbatim>\<open>encode\<close> allocates a share number if and only if the salt contains the character
  \<^verbatim>\<open>$\<close> anywhere (the test is \<^verbatim>\<open>'$' in salt\<close>): the entry then carries the share number
  \<^verbatim>\<open>nextavailableshare\<close> of the reloaded state, the counter is incremented by one and
  written to the cache, and the leading and trailing \<^verbatim>\<open>$\<close> characters are stripped from
  the salt. For a salt without \<^verbatim>\<open>$\<close> the entry carries the share number 0, and the
  dictionary and the cache entry of the engine are unchanged.
\<close>

theorem encode_share_allocation:
  "(CHR ''$'' \<in> set salt \<longrightarrow>
      nextavailableshare (data (snd (encode E password salt its s))) =
        nextavailableshare (data (reload s)) + 1 \<and>
      c_hasher (snd (encode E password salt its s)) =
        Some (data (snd (encode E password salt its s))) \<and>
      (\<forall>out. fst (encode E password salt its s) = Inr out \<longrightarrow>
         (\<exists>mark passhash. mark \<in> {''$'', ''$-''} \<and>
            out = algorithm @ mark @ str_int (nextavailableshare (data (reload s))) @ ''$'' @
                  str_int (case its of None \<Rightarrow> iterations | Some i \<Rightarrow> i) @ ''$'' @
                  strip_char CHR ''$'' salt @ ''$'' @ passhash))) \<and>
   (CHR ''$'' \<notin> set salt \<longrightarrow>
      data (snd (encode E password salt its s)) = data (reload s) \<and>
      c_hasher (snd (encode E password salt its s)) = c_hasher s \<and>
      (\<forall>out. fst (encode E password salt its s) = Inr out \<longrightarrow>
         (\<exists>mark passhash. mark \<in> {''$'', ''$-''} \<and>
            out = algorithm @ mark @ str_int 0 @ ''$'' @
                  str_int (case its of None \<Rightarrow> iterations | Some i \<Rightarrow> i) @ ''$'' @
                  salt @ ''$'' @ passhash)))"
proof (cases "CHR ''$'' \<in> set salt")
  case True
  have "\<forall>out. fst (encode E password salt its s) = Inr out \<longrightarrow>
         (\<exists>mark passhash. mark \<in> {''$'', ''$-''} \<and>
            out = algorithm @ mark @ str_int (nextavailableshare (data (reload s))) @ ''$'' @
                  str_int (case its of None \<Rightarrow> iterations | Some i \<Rightarrow> i) @ ''$'' @
                  strip_char CHR ''$'' salt @ ''$'' @ passhash)"
    using encode_out [of E password salt its s] True by simp
  then show ?thesis
    using True by (simp add: encode_data encode_c_hasher)
next
  case False
  have "\<forall>out. fst (encode E password salt its s) = Inr out \<longrightarrow>
         (\<exists>mark passhash. mark \<in> {''$'', ''$-''} \<and>
            out = algorithm @ mark @ str_int 0 @ ''$'' @
                  str_int (case its of None \<Rightarrow> iterations | Some i \<Rightarrow> i) @ ''$'' @
                  salt @ ''$'' @ passhash)"
    using encode_out [of E password salt its s] False by simp
  then show ?thesis
    using False by (simp add: encode_data encode_c_hasher)
qed

theorem encode_share_allocation_witness:
  "CHR ''$'' \<in> set ''$a$'' \<and>
   nextavailableshare (data (reload demo_unlocked)) = 1 \<and>
   fst (encode E0 ''pw1'' ''$a$'' None demo_unlocked) = Inr ''pph$1$12000$a$mrKjOzg=bfw='' \<and>
   nextavailableshare (data (snd (encode E0 ''pw1'' ''$a$'' None demo_unlocked))) = 2 \<and>
   c_hasher (snd (encode E0 ''pw1'' ''$a$'' None demo_unlocked)) =
     Some (data (snd (encode E0 ''pw1'' ''$a$'' None demo_unlocked))) \<and>
   CHR ''$'' \<notin> set ''salt-x'' \<and>
   fst (encode E0 ''hunter2'' ''salt-x'' None demo_unlocked) =
     Inr ''pph$0$12000$salt-x$E/cw5fA=sKg='' \<and>
   data (snd (encode E0 ''hunter2'' ''salt-x'' None demo_unlocked)) = data (reload demo_unlocked)"
proof -
  have w: "CHR ''$'' \<in> set ''$a$''" and p: "CHR ''$'' \<notin> set ''salt-x''" by simp_all
  have n: "nextavailableshare (data (reload demo_unlocked)) = 1" by code_simp
  have o1: "fst (encode E0 ''pw1'' ''$a$'' None demo_unlocked) = Inr ''pph$1$12000$a$mrKjOzg=bfw=''"
    by code_simp
  have o2: "fst (encode E0 ''hunter2'' ''salt-x'' None demo_unlocked) =
     Inr ''pph$0$12000$salt-x$E/cw5fA=sKg=''"
    by code_simp
  note a = encode_share_allocation [of "''$a$''" E0 "''pw1''" None demo_unlocked,
      THEN conjunct1, rule_format, OF w]
  note b = encode_share_allocation [of "''salt-x''" E0 "''hunter2''" None demo_unlocked,
      THEN conjunct2, rule_format, OF p]
  show ?thesis
    using w p n o1 o2 a [THEN conjunct1] a [THEN conjunct2, THEN conjunct1]
      b [THEN conjunct1]
    by simp
qed

text \<open>
  The claim as it is written refers to salts that begin and end with \<^verbatim>\<open>$\<close>. The salt
  \<^verbatim>\<open>a$b\<close> neither begins nor ends with \<^verbatim>\<open>$\<close>; yet the entry that \<^verbatim>\<open>encode\<close> emits
  for it carries the share number 1 instead of 0, and the counter goes from 1 to 2.
\<close>

theorem encode_wrapped_salt_counterexample:
  "\<not> (hd ''a$b'' = CHR ''$'' \<and> last ''a$b'' = CHR ''$'') \<and>
   nextavailableshare (data (reload demo_locked)) = 1 \<and>
   fst (encode E0 ''pw1'' ''a$b'' None demo_locked) = Inr ''pph$-1$12000$a$b$hvdo2Uo='' \<and>
   nextavailableshare (data (snd (encode E0 ''pw1'' ''a$b'' None demo_locked))) = 2"
proof -
  have a: "\<not> (hd ''a$b'' = CHR ''$'' \<and> last ''a$b'' = CHR ''$'')" by simp
  have b: "nextavailableshare (data (reload demo_locked)) = 1" by code_simp
  have c: "fst (encode E0 ''pw1'' ''a$b'' None demo_locked) = Inr ''pph$-1$12000$a$b$hvdo2Uo=''"
    by code_simp
  have d: "nextavailableshare (data (snd (encode E0 ''pw1'' ''a$b'' None demo_locked))) = 2"
    by code_simp
  show ?thesis using a b c d by simp
qed

text \<open>
  Claim C4 (the share is recovered from a stored hash). The claim is that for every
  threshold account encoded while unlocked, \<^verbatim>\<open>_get_share_from_hash\<close> with the correct
  password, the salt and the iteration count of the entry returns the bytes of
  \<^verbatim>\<open>compute_share(n)[1]\<close>. \<^verbatim>\<open>_polyhash_entry\<close> takes no iteration count: it hashes
  with the class attribute \<^verbatim>\<open>iterations\<close> (12000), whereas \<^verbatim>\<open>encode\<close> writes the
  count of its caller into the entry and \<^verbatim>\<open>verify\<close> hands the count of the entry to
  \<^verbatim>\<open>_get_share_from_hash\<close>. For the account that
  \<^verbatim>\<open>encode("pw1", "$a$", iterations=1000)\<close> creates on the unlocked engine of the
  reference store, with share number 1, the stored hash is \<^verbatim>\<open>mrKjOzg=bfw=\<close> and the
  entry carries the count 1000. With that count, given as the text of the entry or as
  a number, \<^verbatim>\<open>_get_share_from_hash\<close> returns bytes that are not the share 1 of the
  Shamir object; with the class attribute it returns the share.
\<close>

theorem share_recovery_nondefault_iterations:
  "shamirsecretobj (data demo_unlocked) = Some demo_shamir \<and>
   compute_share E0 demo_shamir 1 = Inr (1, [CHR ''Z'', CHR 0xFD, CHR ''}'', CHR ''V'', CHR 0xC4]) \<and>
   polyhash_entry E0 demo_unlocked ''pw1'' ''a'' 1 = Inr ''mrKjOzg=bfw='' \<and>
   get_share_from_hash E0 ''pw1'' ''a'' ''mrKjOzg=bfw='' (IterStr ''1000'') =
     Inr [CHR 0x07, CHR 0x9E, CHR 0x18, CHR ''q'', CHR 0xE1] \<and>
   get_share_from_hash E0 ''pw1'' ''a'' ''mrKjOzg=bfw='' (IterInt 1000) =
     Inr [CHR 0x07, CHR 0x9E, CHR 0x18, CHR ''q'', CHR 0xE1] \<and>
   get_share_from_hash E0 ''pw1'' ''a'' ''mrKjOzg=bfw='' (IterInt iterations) =
     Inr [CHR ''Z'', CHR 0xFD, CHR ''}'', CHR ''V'', CHR 0xC4]"
proof -
  have a: "shamirsecretobj (data demo_unlocked) = Some demo_shamir" by code_simp
  have b: "compute_share E0 demo_shamir 1 =
           Inr (1, [CHR ''Z'', CHR 0xFD, CHR ''}'', CHR ''V'', CHR 0xC4])"
    by code_simp
  have c: "polyhash_entry E0 demo_unlocked ''pw1'' ''a'' 1 = Inr ''mrKjOzg=bfw=''" by code_simp
  have d: "get_share_from_hash E0 ''pw1'' ''a'' ''mrKjOzg=bfw='' (IterStr ''1000'') =
           Inr [CHR 0x07, CHR 0x9E, CHR 0x18, CHR ''q'', CHR 0xE1]"
    by code_simp
  have e: "get_share_from_hash E0 ''pw1'' ''a'' ''mrKjOzg=bfw='' (IterInt 1000) =
           Inr [CHR 0x07, CHR 0x9E, CHR 0x18, CHR ''q'', CHR 0xE1]"
    by code_simp
  have f: "get_share_from_hash E0 ''pw1'' ''a'' ''mrKjOzg=bfw='' (IterInt iterations) =
           Inr [CHR ''Z'', CHR 0xFD, CHR ''}'', CHR ''V'', CHR 0xC4]"
    by code_simp
  show ?thesis using a b c d e f by simp
qed

text \<open>
  Claim C5 (conflict detection). In \<^verbatim>\<open>verify\<close> on a locked engine, for an entry with a
  positive share number \<open>n\<close> for which a candidate share \<open>v\<close> is already cached,
  the candidate \<open>share\<close> recovered from the password is compared with \<open>v\<close> (through
  their base64 texts, which are assumed to differ when the byte strings differ). If the
  two differ, \<^verbatim>\<open>verify\<close> raises the cached-share-mismatch exception. In both cases the
  cached shares and the set of seen share numbers are what they were before the call:
  the cached value is not overwritten.
\<close>

theorem cached_share_conflict:
  assumes fields: "split_fields encoded = Inr (algorithm, sharenumber, its, salt, original_hash)"
    and plain: "\<not> startswith_minus sharenumber"
    and num: "py_int sharenumber = Some n" and pos: "0 < n"
    and locked: "secret (data (reload s)) = None \<or> thresholdlesskey (data (reload s)) = None"
    and cached: "c_share s n = Some v"
    and candidate: "get_share_from_hash E password salt original_hash (IterStr its) = Inr share"
    and inj: "b64enc E v = b64enc E share \<longrightarrow> v = share"
  shows "(share \<noteq> v \<longrightarrow> fst (verify E password encoded s) = Inl CachedShareMismatch) \<and>
         c_share (snd (verify E password encoded s)) = c_share s \<and>
         c_sharenumbers (snd (verify E password encoded s)) = c_sharenumbers s"
proof -
  have c: "c_share (reload s) n = Some v" using cached by simp
  have cs: "cache_share E password salt original_hash its n (reload s) =
           (if b64enc E v \<noteq> b64enc E share then (Inl CachedShareMismatch, reload s)
            else (Inr (), reload s))"
    using candidate c by (rule cache_share_cached)
  have v: "verify E password encoded s =
           (if b64enc E v \<noteq> b64enc E share then (Inl CachedShareMismatch, reload s)
            else if PARTIALBYTES E > 0
            then (Inr (fst (partial_verify E password salt original_hash (IterStr its) n (reload s))),
                  snd (partial_verify E password salt original_hash (IterStr its) n (reload s)))
            else (Inl LockedException, reload s))"
    using pos by (simp add: verify_locked_eq [OF fields plain num locked] cs)
  show ?thesis
    using inj by (auto simp add: v)
qed

theorem cached_share_conflict_witness:
  "c_share demo_cached 1 = Some [CHR ''Z'', CHR 0xFD, CHR ''}'', CHR ''V'', CHR 0xC4] \<and>
   get_share_from_hash E0 ''wrong'' ''a'' ''mrKjOzg=bfw='' (IterStr ''12000'') =
     Inr [CHR 0x8F, CHR ''4'', CHR ''T'', CHR ''S'', CHR 0xE1] \<and>
   fst (verify E0 ''wrong'' demo_entry1 demo_cached) = Inl CachedShareMismatch \<and>
   c_share (snd (verify E0 ''wrong'' demo_entry1 demo_cached)) = c_share demo_cached \<and>
   c_sharenumbers (snd (verify E0 ''wrong'' demo_entry1 demo_cached)) = c_sharenumbers demo_cached \<and>
   c_share (snd (verify E0 ''pw1'' demo_entry1 demo_cached)) = c_share demo_cached \<and>
   c_sharenumbers (snd (verify E0 ''pw1'' demo_entry1 demo_cached)) = c_sharenumbers demo_cached"
proof -
  let ?v = "[CHR ''Z'', CHR 0xFD, CHR ''}'', CHR ''V'', CHR 0xC4]"
  let ?w = "[CHR 0x8F, CHR ''4'', CHR ''T'', CHR ''S'', CHR 0xE1]"
  have fields: "split_fields demo_entry1 = Inr (algorithm, ''1'', ''12000'', ''a'', ''mrKjOzg=bfw='')"
    by code_simp
  have plain: "\<not> startswith_minus ''1''" by code_simp
  have num: "py_int ''1'' = Some 1" by code_simp
  have locked: "secret (data (reload demo_cached)) = None \<or>
                thresholdlesskey (data (reload demo_cached)) = None"
    by code_simp
  have cached: "c_share demo_cached 1 = Some ?v" by code_simp
  have wrong: "get_share_from_hash E0 ''wrong'' ''a'' ''mrKjOzg=bfw='' (IterStr ''12000'') = Inr ?w"
    by code_simp
  have right: "get_share_from_hash E0 ''pw1'' ''a'' ''mrKjOzg=bfw='' (IterStr ''12000'') = Inr ?v"
    by code_simp
  have inj: "b64enc E0 ?v = b64enc E0 ?w \<longrightarrow> ?v = ?w" by code_simp
  have ne: "?w \<noteq> ?v" by simp
  note a = cached_share_conflict [OF fields plain num _ locked cached wrong inj]
  note b = cached_share_conflict [OF fields plain num _ locked cached right]
  show ?thesis using cached wrong a b ne by simp
qed

text \<open>
  Claim C6 (outcome of \<^verbatim>\<open>verify\<close> on a locked engine), as the source implements it.
  For an entry whose share field is a number \<open>n\<close> without a leading \<^verbatim>\<open>-\<close>, on an
  engine that lacks the secret or the thresholdless key: if \<open>n = 0\<close>, or if the share
  step for \<open>n \<noteq> 0\<close> (recovering the candidate share, checking it against the cache
  or storing it, recombining when the threshold is reached) completes, then \<^verbatim>\<open>verify\<close>
  returns the result of the partial verification when \<^verbatim>\<open>partialbytes > 0\<close> and raises
  \<^verbatim>\<open>LockedException\<close> otherwise; if the share step raises, \<^verbatim>\<open>verify\<close> raises that
  exception; and with \<^verbatim>\<open>partialbytes\<close> not positive \<^verbatim>\<open>verify\<close> never returns a boolean.
\<close>

theorem verify_locked_outcome:
  fixes E :: "'sh prims"
  defines "share_step \<equiv> \<lambda>password salt original_hash its n s.
             (if n \<noteq> 0 then cache_share E password salt original_hash its n (reload s)
              else (Inr (), reload s))"
  assumes fields: "split_fields encoded = Inr (algorithm, sharenumber, its, salt, original_hash)"
    and plain: "\<not> startswith_minus sharenumber"
    and num: "py_int sharenumber = Some n"
    and locked: "secret (data (reload s)) = None \<or> thresholdlesskey (data (reload s)) = None"
  shows "(n = 0 \<or> fst (share_step password salt original_hash its n s) = Inr () \<longrightarrow>
            fst (verify E password encoded s) =
              (if PARTIALBYTES E > 0
               then Inr (py_from (b64enc E (digest E password (Some salt) (IterStr its)))
                           (int (length (b64enc E (digest E password (Some salt) (IterStr its)))) -
                            PARTIALBYTES E) =
                         py_from original_hash (int (length original_hash) - PARTIALBYTES E))
               else Inl LockedException)) \<and>
         (\<forall>e. fst (share_step password salt original_hash its n s) = Inl e \<longrightarrow>
            fst (verify E password encoded s) = Inl e) \<and>
         (PARTIALBYTES E \<le> 0 \<longrightarrow> (\<exists>e. fst (verify E password encoded s) = Inl e))"
proof -
  obtain r s2 where st: "share_step password salt original_hash its n s = (r, s2)"
    by (cases "share_step password salt original_hash its n s")
  have v: "verify E password encoded s =
           (case r of
              Inl e \<Rightarrow> (Inl e, s2)
            | Inr u \<Rightarrow>
                if PARTIALBYTES E > 0
                then (Inr (fst (partial_verify E password salt original_hash (IterStr its) n s2)),
                      snd (partial_verify E password salt original_hash (IterStr its) n s2))
                else (Inl LockedException, s2))"
    using st unfolding share_step_def
    by (simp add: verify_locked_eq [OF fields plain num locked])
  have z: "n = 0 \<Longrightarrow> r = Inr ()"
    using st unfolding share_step_def by simp
  show ?thesis
    unfolding st v using z
    by (cases r) (auto simp add: partial_verify_result)
qed

theorem verify_locked_outcome_witness:
  "0 < PARTIALBYTES E0 \<and> PARTIALBYTES E0_nopartial = 0 \<and>
   secret (data (reload demo_locked)) = None \<and>
   fst (verify E0 ''hunter2'' ''pph$0$12000$salt-x$E/cw5fA=sKg='' demo_locked) = Inr True \<and>
   fst (verify E0 ''pw1'' demo_entry1 demo_locked) = Inr True \<and>
   fst (verify E0_nopartial ''pw1'' demo_entry1 demo_locked) = Inl LockedException \<and>
   fst (verify E0 ''wrong'' demo_entry1 demo_cached) = Inl CachedShareMismatch"
proof -
  have P: "0 < PARTIALBYTES E0" and P0: "PARTIALBYTES E0_nopartial = 0" by code_simp+
  have f0: "split_fields ''pph$0$12000$salt-x$E/cw5fA=sKg='' =
              Inr (algorithm, ''0'', ''12000'', ''salt-x'', ''E/cw5fA=sKg='')"
    by code_simp
  have f1: "split_fields demo_entry1 = Inr (algorithm, ''1'', ''12000'', ''a'', ''mrKjOzg=bfw='')"
    by code_simp
  have p0: "\<not> startswith_minus ''0''" and p1: "\<not> startswith_minus ''1''" by code_simp+
  have n0: "py_int ''0'' = Some 0" and n1: "py_int ''1'' = Some 1" by code_simp+
  have lk: "secret (data (reload demo_locked)) = None \<or>
            thresholdlesskey (data (reload demo_locked)) = None"
    by code_simp
  have lk1: "secret (data (reload demo_locked)) = None" by code_simp
  have lkc: "secret (data (reload demo_cached)) = None \<or>
            thresholdlesskey (data (reload demo_cached)) = None"
    by code_simp
  have s1: "fst (cache_share E0 ''pw1'' ''a'' ''mrKjOzg=bfw='' ''12000'' 1 (reload demo_locked)) =
            Inr ()"
    by code_simp
  have s1': "fst (cache_share E0_nopartial ''pw1'' ''a'' ''mrKjOzg=bfw='' ''12000'' 1
               (reload demo_locked)) = Inr ()"
    by code_simp
  have sc: "fst (cache_share E0 ''wrong'' ''a'' ''mrKjOzg=bfw='' ''12000'' 1 (reload demo_cached)) =
            Inl CachedShareMismatch"
    by code_simp
  have pv0: "py_from (b64enc E0 (digest E0 ''hunter2'' (Some ''salt-x'') (IterStr ''12000'')))
               (int (length (b64enc E0 (digest E0 ''hunter2'' (Some ''salt-x'') (IterStr ''12000'')))) -
                PARTIALBYTES E0) =
             py_from ''E/cw5fA=sKg='' (int (length ''E/cw5fA=sKg='') - PARTIALBYTES E0)"
    by code_simp
  have pv1: "py_from (b64enc E0 (digest E0 ''pw1'' (Some ''a'') (IterStr ''12000'')))
               (int (length (b64enc E0 (digest E0 ''pw1'' (Some ''a'') (IterStr ''12000'')))) -
                PARTIALBYTES E0) =
             py_from ''mrKjOzg=bfw='' (int (length ''mrKjOzg=bfw='') - PARTIALBYTES E0)"
    by code_simp
  have a: "fst (verify E0 ''hunter2'' ''pph$0$12000$salt-x$E/cw5fA=sKg='' demo_locked) = Inr True"
    using verify_locked_outcome [OF f0 p0 n0 lk, of E0 "''hunter2''", THEN conjunct1] P pv0
    by simp
  have b: "fst (verify E0 ''pw1'' demo_entry1 demo_locked) = Inr True"
    using verify_locked_outcome [OF f1 p1 n1 lk, of E0 "''pw1''", THEN conjunct1] P pv1 s1
    by simp
  have c: "fst (verify E0_nopartial ''pw1'' demo_entry1 demo_locked) = Inl LockedException"
    using verify_locked_outcome [OF f1 p1 n1 lk, of E0_nopartial "''pw1''", THEN conjunct1] P0 s1'
    by simp
  have d: "fst (verify E0 ''wrong'' demo_entry1 demo_cached) = Inl CachedShareMismatch"
    using verify_locked_outcome [OF f1 p1 n1 lkc, of E0 "''wrong''", THEN conjunct2, THEN conjunct1]
      sc
    by simp
  show ?thesis using P P0 lk1 a b c d by simp
qed

text \<open>
  The claim as it is written promises the result of the partial verification whenever
  the engine is locked, the share number is not negative and \<^verbatim>\<open>partialbytes > 0\<close>. On
  the locked engine that has cached the share of account 1, a verification of that
  account with another password raises the cached-share-mismatch exception: \<^verbatim>\<open>verify\<close>
  neither returns the result of the partial verification (which is \<^verbatim>\<open>False\<close> here) nor
  raises \<^verbatim>\<open>LockedException\<close>.
\<close>

theorem verify_locked_outcome_counterexample:
  "0 < PARTIALBYTES E0 \<and>
   secret (data (reload demo_cached)) = None \<and>
   thresholdlesskey (data (reload demo_cached)) = None \<and>
   \<not> is_unlocked (data (reload demo_cached)) \<and>
   split_fields demo_entry1 = Inr (''pph'', ''1'', ''12000'', ''a'', ''mrKjOzg=bfw='') \<and>
   py_int ''1'' = Some 1 \<and>
   fst (partial_verify E0 ''wrong'' ''a'' ''mrKjOzg=bfw='' (IterStr ''12000'') 1 (reload demo_cached)) =
     False \<and>
   fst (verify E0 ''wrong'' demo_entry1 demo_cached) = Inl CachedShareMismatch"
proof -
  have a: "0 < PARTIALBYTES E0" by code_simp
  have b: "secret (data (reload demo_cached)) = None" by code_simp
  have c: "thresholdlesskey (data (reload demo_cached)) = None" by code_simp
  have d: "\<not> is_unlocked (data (reload demo_cached))" by code_simp
  have e: "split_fields demo_entry1 = Inr (''pph'', ''1'', ''12000'', ''a'', ''mrKjOzg=bfw='')"
    by code_simp
  have f: "py_int ''1'' = Some 1" by code_simp
  have g: "fst (partial_verify E0 ''wrong'' ''a'' ''mrKjOzg=bfw='' (IterStr ''12000'') 1
             (reload demo_cached)) = False"
    by code_simp
  have h: "fst (verify E0 ''wrong'' demo_entry1 demo_cached) = Inl CachedShareMismatch"
    by code_simp
  show ?thesis using a b c d e f g h by simp
qed

text \<open>
  Claim C7 (failed fingerprint check in \<^verbatim>\<open>_recombine\<close>). If the recovery of the secret
  from the cached shares succeeds but the recovered secret fails \<^verbatim>\<open>verify_secret\<close>,
  then \<^verbatim>\<open>_recombine\<close> raises its exception, and \<^verbatim>\<open>is_unlocked\<close> and the thresholdless
  key are what they were before the call (false and absent on a locked engine); nothing
  is written to the cache entry of the engine.
\<close>

theorem recombine_fingerprint_failure:
  assumes known: "c_sharenumbers s = Some ns"
    and shares: "recombination_shares s (set_iter E ns) = Inr shares"
    and recovered: "recover_secretdata E (ShamirSecret E (THRESHOLD E)) shares = Inr obj"
    and bad: "\<not> verify_secret E (secretdata E obj)"
  shows "fst (recombine E s) = Inl RecombineFailed \<and>
         is_unlocked (data (snd (recombine E s))) = is_unlocked (data s) \<and>
         thresholdlesskey (data (snd (recombine E s))) = thresholdlesskey (data s) \<and>
         c_hasher (snd (recombine E s)) = c_hasher s"
  using assms by (simp add: recombine_def Let_def)

theorem recombine_fingerprint_failure_witness:
  "recover_secretdata E0 (ShamirSecret E0 (THRESHOLD E0)) [(1, ''abcde''), (2, ''fghij'')] =
     Inr (Shamir 2 (Some [[149, 244], [97, 3], [147, 240], [150, 242], [96, 5]])) \<and>
   \<not> verify_secret E0
        (secretdata E0 (Shamir 2 (Some [[149, 244], [97, 3], [147, 240], [150, 242], [96, 5]]))) \<and>
   fst (recombine E0 demo_bogus) = Inl RecombineFailed \<and>
   \<not> is_unlocked (data (snd (recombine E0 demo_bogus))) \<and>
   thresholdlesskey (data (snd (recombine E0 demo_bogus))) = None"
proof -
  let ?obj = "Shamir 2 (Some [[149, 244], [97, 3], [147, 240], [150, 242], [96, 5]])"
  have known: "c_sharenumbers demo_bogus = Some {|1, 2|}" by code_simp
  have shares: "recombination_shares demo_bogus (set_iter E0 {|1, 2|}) =
                  Inr [(1, ''abcde''), (2, ''fghij'')]"
    by code_simp
  have recovered: "recover_secretdata E0 (ShamirSecret E0 (THRESHOLD E0))
                     [(1, ''abcde''), (2, ''fghij'')] = Inr ?obj"
    by code_simp
  have bad: "\<not> verify_secret E0 (secretdata E0 ?obj)" by code_simp
  have u: "\<not> is_unlocked (data demo_bogus)" by code_simp
  have k: "thresholdlesskey (data demo_bogus) = None" by code_simp
  note main = recombine_fingerprint_failure [OF known shares recovered bad]
  show ?thesis using main recovered bad u k by simp
qed

text \<open>
  Claim C8 (verification of a locked-mode entry). For a \<^verbatim>\<open>pph\<close> entry whose share field
  begins with \<^verbatim>\<open>-\<close>, \<^verbatim>\<open>verify\<close> returns the comparison of
  \<^verbatim>\<open>b64enc(digest(password, salt, iterations))\<close> with the stored hash, where salt and
  iterations are the fields of the entry; the state of the engine plays no part.
\<close>

theorem verify_locked_entry:
  assumes "split_fields encoded = Inr (algorithm, sharenumber, its, salt, original_hash)"
    and "startswith_minus sharenumber"
  shows "fst (verify E password encoded s) =
           Inr (constant_time_compare
                  (b64enc E (pbkdf2 E (sha256 E) password (Some salt) (IterStr its)))
                  original_hash)"
  using assms
  by (simp add: verify_def Let_def digest_def)

theorem verify_locked_entry_witness:
  "split_fields demo_locked_entry = Inr (''pph'', ''-1'', ''12000'', ''a'', ''wE/ebfw='') \<and>
   startswith_minus ''-1'' \<and>
   fst (verify E0 ''pw1'' demo_locked_entry demo_locked) = Inr True \<and>
   fst (verify E0 ''pw1'' demo_locked_entry demo_unlocked) = Inr True \<and>
   fst (verify E0 ''nope'' demo_locked_entry demo_locked) = Inr False \<and>
   fst (verify E0 ''nope'' demo_locked_entry demo_unlocked) = Inr False"
proof -
  have f: "split_fields demo_locked_entry = Inr (algorithm, ''-1'', ''12000'', ''a'', ''wE/ebfw='')"
    by code_simp
  have f': "split_fields demo_locked_entry = Inr (''pph'', ''-1'', ''12000'', ''a'', ''wE/ebfw='')"
    by code_simp
  have m: "startswith_minus ''-1''" by code_simp
  have y: "constant_time_compare
             (b64enc E0 (pbkdf2 E0 (sha256 E0) ''pw1'' (Some ''a'') (IterStr ''12000'')))
             ''wE/ebfw=''"
    by code_simp
  have n: "\<not> constant_time_compare
             (b64enc E0 (pbkdf2 E0 (sha256 E0) ''nope'' (Some ''a'') (IterStr ''12000'')))
             ''wE/ebfw=''"
    by code_simp
  note main = verify_locked_entry [OF f m, of E0]
  show ?thesis
    using f' m y n main [of "''pw1''" demo_locked] main [of "''pw1''" demo_unlocked]
      main [of "''nope''" demo_locked] main [of "''nope''" demo_unlocked]
    by simp
qed

text \<open>
  Claim C9 (locked encode). Whenever the engine, as \<^verbatim>\<open>encode\<close> sees it after its
  initial reload, is not unlocked or has no thresholdless key, \<^verbatim>\<open>encode\<close> returns the
  string \<^verbatim>\<open>pph$-n$iterations$salt$b64enc(h)\<close>, whose share field begins with \<^verbatim>\<open>-\<close>, for
  every password and every salt, with or without \<^verbatim>\<open>$\<close>: \<open>n\<close> is the allocated share
  number or 0, the salt is stripped of its \<^verbatim>\<open>$\<close> wrappers, and \<open>h\<close> is the digest of
  the password with that salt and the given (or default) iteration count.
\<close>

theorem encode_locked_format:
  assumes "\<not> is_unlocked (data (reload s)) \<or> thresholdlesskey (data (reload s)) = None"
  shows "fst (encode E password salt its s) =
           Inr (''pph$-'' @
                str_int (if CHR ''$'' \<in> set salt then nextavailableshare (data (reload s)) else 0) @
                ''$'' @ str_int (case its of None \<Rightarrow> 12000 | Some i \<Rightarrow> i) @
                ''$'' @ (if CHR ''$'' \<in> set salt then strip_char CHR ''$'' salt else salt) @
                ''$'' @ b64enc E (pbkdf2 E (sha256 E) password
                          (Some (if CHR ''$'' \<in> set salt then strip_char CHR ''$'' salt else salt))
                          (IterInt (case its of None \<Rightarrow> 12000 | Some i \<Rightarrow> i))))"
  using assms
  by (auto simp add: encode_def Let_def algorithm_def iterations_def digest_def split: option.splits)

theorem encode_locked_format_witness:
  "\<not> is_unlocked (data (reload demo_locked)) \<and>
   fst (encode E0 ''pw1'' ''$a$'' None demo_locked) = Inr ''pph$-1$12000$a$wE/ebfw='' \<and>
   fst (encode E0 ''pw1'' ''a'' (Some 1000) demo_locked) =
     Inr (''pph$-0$1000$a$'' @ b64enc E0 (pbkdf2 E0 (sha256 E0) ''pw1'' (Some ''a'') (IterInt 1000)))"
proof -
  have l: "\<not> is_unlocked (data (reload demo_locked))" by code_simp
  then have l': "\<not> is_unlocked (data (reload demo_locked)) \<or>
                 thresholdlesskey (data (reload demo_locked)) = None"
    by simp
  have r1: "''pph$-'' @
            str_int (if CHR ''$'' \<in> set ''$a$'' then nextavailableshare (data (reload demo_locked))
                     else 0) @
            ''$'' @ str_int (case None of None \<Rightarrow> 12000 | Some i \<Rightarrow> i) @
            ''$'' @ (if CHR ''$'' \<in> set ''$a$'' then strip_char CHR ''$'' ''$a$'' else ''$a$'') @
            ''$'' @ b64enc E0 (pbkdf2 E0 (sha256 E0) ''pw1''
                      (Some (if CHR ''$'' \<in> set ''$a$'' then strip_char CHR ''$'' ''$a$'' else ''$a$''))
                      (IterInt (case None of None \<Rightarrow> 12000 | Some i \<Rightarrow> i))) =
            ''pph$-1$12000$a$wE/ebfw=''"
    by code_simp
  have s0: "str_int 0 = ''0''" and s1: "str_int 1000 = ''1000''" by code_simp+
  have a: "fst (encode E0 ''pw1'' ''$a$'' None demo_locked) = Inr ''pph$-1$12000$a$wE/ebfw=''"
    using encode_locked_format [OF l', of E0 "''pw1''" "''$a$''" None] r1 by simp
  have b: "fst (encode E0 ''pw1'' ''a'' (Some 1000) demo_locked) =
     Inr (''pph$-0$1000$a$'' @ b64enc E0 (pbkdf2 E0 (sha256 E0) ''pw1'' (Some ''a'') (IterInt 1000)))"
    using encode_locked_format [OF l', of E0 "''pw1''" "''a''" "Some 1000"] s0 s1 by simp
  show ?thesis using l a b by simp
qed

text \<open>
  Claim C10 (partial verification with \<^verbatim>\<open>partialbytes = 0\<close>). With \<^verbatim>\<open>partialbytes\<close>
  set to 0, \<^verbatim>\<open>_partial_verify\<close> returns true for every password and every stored hash,
  because both compared suffixes are empty, and after the call the stored hash is a key
  of the \<^verbatim>\<open>partial_hashes\<close> dictionary in the cache. Consequently, on the unlocked
  path of \<^verbatim>\<open>verify\<close>, every call that returns false has logged the error about a
  failed login with correct partial bytes and has recorded the stored hash.
\<close>

theorem partial_verify_disabled:
  assumes P: "PARTIALBYTES E = 0"
    and fields: "split_fields encoded = Inr (algorithm, sharenumber, its, salt, original_hash)"
    and plain: "\<not> startswith_minus sharenumber"
    and num: "py_int sharenumber = Some n"
    and unlocked: "secret (data (reload s)) \<noteq> None" "thresholdlesskey (data (reload s)) \<noteq> None"
  shows "fst (partial_verify E password' salt' passhash its' n' s') \<and>
         (\<exists>d. c_partial_hashes (snd (partial_verify E password' salt' passhash its' n' s')) = Some d \<and>
              passhash \<in> fst ` set d) \<and>
         (fst (verify E password encoded s) = Inr False \<longrightarrow>
            (ERROR, ''Failed login with correct partial bytes. Possible database leak detected! The offending Hash is: '' @
                    original_hash) \<in> set (logged (snd (verify E password encoded s))) \<and>
            (\<exists>d. c_partial_hashes (snd (verify E password encoded s)) = Some d \<and>
                 original_hash \<in> fst ` set d))"
proof -
  have pv: "\<And>password salt passhash its n s. fst (partial_verify E password salt passhash its n s)"
    using P by (simp add: partial_verify_result)
  have v: "verify E password encoded s =
             verify_unlocked E password salt original_hash its n (reload s)"
    using fields plain num unlocked by (simp add: verify_def Let_def)
  have third: "fst (verify E password encoded s) = Inr False \<longrightarrow>
            (ERROR, ''Failed login with correct partial bytes. Possible database leak detected! The offending Hash is: '' @
                    original_hash) \<in> set (logged (snd (verify E password encoded s))) \<and>
            (\<exists>d. c_partial_hashes (snd (verify E password encoded s)) = Some d \<and>
                 original_hash \<in> fst ` set d)"
  proof
    assume r: "fst (verify E password encoded s) = Inr False"
    define x where "x = (if n \<noteq> 0 then polyhash_entry E (reload s) password salt n
            else encrypt_entry E (reload s) password salt)"
    obtain proposed where x: "x = Inr proposed"
      using r unfolding v verify_unlocked_def x_def [symmetric] by (cases x) simp_all
    define pr where "pr = partial_verify E password salt original_hash (IterStr its) n (reload s)"
    have pr1: "fst pr" unfolding pr_def by (rule pv)
    have vu: "verify E password encoded s =
        (Inr (constant_time_compare original_hash proposed),
         if \<not> constant_time_compare original_hash proposed
         then log_msg ERROR
                (''Failed login with correct partial bytes. Possible database leak detected! The offending Hash is: '' @
                 original_hash) (snd pr)
         else snd pr)"
      unfolding v verify_unlocked_def x_def [symmetric] x
      using pr1 by (simp add: Let_def split_beta pr_def [symmetric])
    from r have ne: "\<not> constant_time_compare original_hash proposed"
      unfolding vu by simp
    have rec: "\<exists>d. c_partial_hashes (snd pr) = Some d \<and> original_hash \<in> fst ` set d"
      unfolding pr_def by (rule partial_verify_records) (rule pv)
    show "(ERROR, ''Failed login with correct partial bytes. Possible database leak detected! The offending Hash is: '' @
                    original_hash) \<in> set (logged (snd (verify E password encoded s))) \<and>
            (\<exists>d. c_partial_hashes (snd (verify E password encoded s)) = Some d \<and>
                 original_hash \<in> fst ` set d)"
      unfolding vu using ne rec by simp
  qed
  show ?thesis
    using pv partial_verify_records [OF pv] third by blast
qed

theorem partial_verify_disabled_witness:
  "PARTIALBYTES E0_nopartial = 0 \<and>
   fst (partial_verify E0_nopartial ''any'' ''salt'' ''stored'' (IterInt 7) 3 demo_locked) \<and>
   fst (verify E0_nopartial ''wrong'' demo_entry1 demo_unlocked) = Inr False \<and>
   (ERROR, ''Failed login with correct partial bytes. Possible database leak detected! The offending Hash is: mrKjOzg=bfw='')
     \<in> set (logged (snd (verify E0_nopartial ''wrong'' demo_entry1 demo_unlocked)))"
proof -
  have P: "PARTIALBYTES E0_nopartial = 0" by code_simp
  have f: "split_fields demo_entry1 = Inr (algorithm, ''1'', ''12000'', ''a'', ''mrKjOzg=bfw='')"
    by code_simp
  have p: "\<not> startswith_minus ''1''" and n: "py_int ''1'' = Some 1" by code_simp+
  have u: "secret (data (reload demo_unlocked)) \<noteq> None"
    "thresholdlesskey (data (reload demo_unlocked)) \<noteq> None"
    by code_simp+
  have r: "fst (verify E0_nopartial ''wrong'' demo_entry1 demo_unlocked) = Inr False" by code_simp
  note main = partial_verify_disabled [OF P f p n u,
      of "''any''" "''salt''" "''stored''" "IterInt 7" 3 demo_locked "''wrong''"]
  show ?thesis using P r main by simp
qed

end
